theory Spec2Isabelle
  imports Main
begin

section \<open>Data model of the transaction manager (toshieth/manager.py)\<close>

text \<open>
  Addresses and hashes are the \<open>0x\<close>-prefixed hex strings of the database columns.
  The numeric columns (\<open>value\<close>, \<open>gas\<close>, \<open>gas_price\<close>, \<open>v\<close>, \<open>r\<close>, \<open>s\<close>) are stored as
  text and read with \<open>parse_int\<close>; the model holds the parsed Python integer. The column
  \<open>value\<close> is the field \<open>tx_value\<close> and the signature columns are \<open>sig_v\<close>, \<open>sig_r\<close>,
  \<open>sig_s\<close>, because \<open>value\<close> is a keyword and one-letter constants would capture variables.
\<close>

type_synonym address = string

datatype status = New | Queued | Unconfirmed | Confirmed | Error

record transaction =
  transaction_id :: nat
  hash :: string
  from_address :: address
  to_address :: address
  nonce :: int
  tx_value :: int
  gas :: int
  gas_price :: int
  data :: "string option"
  sig_v :: "int option"
  sig_r :: "int option"
  sig_s :: "int option"
  status :: status
  blocknumber :: "int option"

record token_transaction =
  tok_transaction_id :: nat
  transaction_log_index :: nat
  contract_address :: address
  tok_from_address :: address
  tok_to_address :: address
  tok_value :: int
  tok_status :: status

text \<open>
  The tables the manager reads and writes. \<open>tokens\<close> holds the contract addresses of the
  table of the same name (the join in \<open>update_transaction\<close> only needs to know whether the
  contract is registered); \<open>last_blocknumber\<close> is \<open>None\<close> while its table is empty.
\<close>

record database =
  transactions :: "transaction list"
  token_transactions :: "token_transaction list"
  tokens :: "address list"
  last_blocknumber :: "int option"

text \<open>The transaction object that \<open>create_transaction\<close> builds and \<open>encode_transaction\<close> serialises.\<close>

record eth_tx =
  etx_nonce :: int
  etx_value :: int
  etx_gasprice :: int
  etx_startgas :: int
  etx_to :: address
  etx_data :: string
  etx_v :: "int option"
  etx_r :: "int option"
  etx_s :: "int option"

text \<open>What the Ethereum node answers. A \<open>JsonRPCError\<close> of \<open>eth_sendRawTransaction\<close> is \<open>Inl\<close> of its message.\<close>

record node_transaction =
  blockNumber :: "int option"

record log_entry =
  log_address :: address
  topics :: "string list"

record receipt =
  logs :: "log_entry list option"

record node =
  eth_getBalance :: "address \<Rightarrow> int option \<Rightarrow> int"
  eth_getTransactionCount :: "address \<Rightarrow> int option \<Rightarrow> int"
  eth_getTransactionByHash :: "string \<Rightarrow> node_transaction option"
  eth_getTransactionReceipt :: "string \<Rightarrow> receipt option"
  eth_sendRawTransaction :: "eth_tx \<Rightarrow> string + string"

text \<open>
  The surroundings of one call: the node, the constants of \<open>toshieth.constants\<close> and the
  configured network id (their values are not part of the sources, so they are parameters),
  the library functions \<open>decode_single_address\<close> and the sender recovery behind
  \<open>data_encoder(tx.sender)\<close>, the clock reading of \<open>time.time()\<close> in seconds, and whether
  the decorator \<open>log_unhandled_exceptions\<close> (of the library \<open>toshi.log\<close>) raises the
  exception again after logging it.
\<close>

record env =
  eth :: node
  TRANSFER_TOPIC :: string
  DEPOSIT_TOPIC :: string
  WITHDRAWAL_TOPIC :: string
  WETH_CONTRACT_ADDRESS :: address
  network_id :: int
  decode_single_address :: "string \<Rightarrow> address"
  recover_sender :: "eth_tx \<Rightarrow> address"
  time_now :: int
  reraise :: bool

text \<open>The rendered SOFA messages: a Payment and a TokenPayment, by their fields.\<close>

datatype sofa =
    SofaPayment (sofa_value: int) (sofa_txHash: string) (sofa_status: status)
      (sofa_fromAddress: address) (sofa_toAddress: address) (sofa_networkId: int)
  | SofaTokenPayment (sofa_txHash: string) (sofa_fromAddress: address) (sofa_toAddress: address)
      (sofa_status: status) (sofa_value: int) (sofa_contractAddress: address)

text \<open>
  The tasks handed to the dispatchers: \<open>manager_dispatcher.send_notification\<close>,
  \<open>manager_dispatcher.process_transaction_queue\<close> (with its delay in seconds, 0 for none),
  \<open>manager_dispatcher.update_transaction\<close> (id, status, retry start time) and
  \<open>erc20_dispatcher.update_token_cache\<close>.
\<close>

datatype task =
    Send_notification address sofa
  | Process_transaction_queue address nat
  | Update_transaction nat status int
  | Update_token_cache address address address "int option"

text \<open>
  The state one manager call works on: the database, the cached safe-low gas price
  (\<open>parse_int\<close> of the Redis key \<open>gas_station_safelow_gas_price\<close>, \<open>None\<close> when absent), the
  transactions handed to \<open>eth_sendRawTransaction\<close> so far, and the dispatched tasks.
\<close>

record world =
  db :: database
  gas_station_safelow_gas_price :: "int option"
  sent :: "eth_tx list"
  outbox :: "task list"

datatype outcome = Returned | Raised

type_synonym message = "address \<times> address \<times> status \<times> sofa"

definition dispatch :: "task \<Rightarrow> world \<Rightarrow> world" where
  "dispatch t w = w\<lparr>outbox := outbox w @ [t]\<rparr>"

section \<open>update_transaction\<close>

definition fetch_transaction :: "database \<Rightarrow> nat \<Rightarrow> transaction option" where
  "fetch_transaction d i = find (\<lambda>t. transaction_id t = i) (transactions d)"

definition fetch_token_txs :: "database \<Rightarrow> nat \<Rightarrow> token_transaction list" where
  "fetch_token_txs d i =
     filter (\<lambda>tt. tok_transaction_id tt = i \<and> contract_address tt \<in> set (tokens d))
       (token_transactions d)"

definition update_status :: "nat \<Rightarrow> status \<Rightarrow> database \<Rightarrow> database" where
  "update_status i st d =
     d\<lparr>transactions :=
         map (\<lambda>t. if transaction_id t = i then t\<lparr>status := st\<rparr> else t) (transactions d)\<rparr>"

definition update_status_blocknumber :: "nat \<Rightarrow> status \<Rightarrow> int \<Rightarrow> database \<Rightarrow> database" where
  "update_status_blocknumber i st bn d =
     d\<lparr>transactions :=
         map (\<lambda>t. if transaction_id t = i then t\<lparr>status := st, blocknumber := Some bn\<rparr> else t)
           (transactions d)\<rparr>"

definition update_token_status :: "nat \<Rightarrow> nat \<Rightarrow> status \<Rightarrow> database \<Rightarrow> database" where
  "update_token_status i li st d =
     d\<lparr>token_transactions :=
         map (\<lambda>tt. if tok_transaction_id tt = i \<and> transaction_log_index tt = li
                    then tt\<lparr>tok_status := st\<rparr> else tt)
           (token_transactions d)\<rparr>"

text \<open>
  One log of the receipt against one token transfer (lines 389-401). \<open>None\<close> is the
  \<open>IndexError\<close> of \<open>_log['topics'][0]\<close> or \<open>_log['topics'][1]\<close> on a log of the WETH contract
  with too few topics; Python's \<open>and\<close> does not read \<open>topics[1]\<close> when the first topic is
  neither the Deposit nor the Withdrawal topic.
\<close>

definition log_matches :: "env \<Rightarrow> address \<Rightarrow> address \<Rightarrow> log_entry \<Rightarrow> bool option" where
  "log_matches e from_a to_a l =
     (case topics l of
        t0 # t1 # t2 # ts \<Rightarrow>
          Some (t0 = TRANSFER_TOPIC e \<and> decode_single_address e t1 = from_a
                \<and> decode_single_address e t2 = to_a)
      | [t0, t1] \<Rightarrow>
          (if log_address l = WETH_CONTRACT_ADDRESS e
           then Some ((t0 = DEPOSIT_TOPIC e \<and> decode_single_address e t1 = to_a)
                      \<or> (t0 = WITHDRAWAL_TOPIC e \<and> decode_single_address e t1 = from_a))
           else Some False)
      | [t0] \<Rightarrow>
          (if log_address l = WETH_CONTRACT_ADDRESS e
           then (if t0 = DEPOSIT_TOPIC e \<or> t0 = WITHDRAWAL_TOPIC e then None else Some False)
           else Some False)
      | [] \<Rightarrow> (if log_address l = WETH_CONTRACT_ADDRESS e then None else Some False))"

fun has_transfer_event :: "env \<Rightarrow> address \<Rightarrow> address \<Rightarrow> log_entry list \<Rightarrow> bool option" where
  "has_transfer_event e from_a to_a [] = Some False"
| "has_transfer_event e from_a to_a (l # ls) =
     (case log_matches e from_a to_a l of
        None \<Rightarrow> None
      | Some True \<Rightarrow> Some True
      | Some False \<Rightarrow> has_transfer_event e from_a to_a ls)"

definition ZERO_ADDRESS :: address where
  "ZERO_ADDRESS = ''0x0000000000000000000000000000000000000000''"

text \<open>
  The loop over the token transfers of the transaction (lines 380-433): it sets each
  transfer's status, asks for the token cache to be refreshed, and collects the messages.
  \<open>lg\<close> is \<open>tx_receipt['logs']\<close> and \<open>bn\<close> the node's block number; both are only read when
  the status is \<open>confirmed\<close>.
\<close>

fun render_token_txs ::
  "env \<Rightarrow> transaction \<Rightarrow> status \<Rightarrow> log_entry list option \<Rightarrow> int option
     \<Rightarrow> token_transaction list \<Rightarrow> world \<Rightarrow> message list \<Rightarrow> outcome \<times> world \<times> message list"
where
  "render_token_txs e tx st lg bn [] w ms = (Returned, w, ms)"
| "render_token_txs e tx st lg bn (tt # tts) w ms =
     (let from_a = tok_from_address tt; to_a = tok_to_address tt in
      case (if st = Confirmed
            then (case (case lg of None \<Rightarrow> Some False
                                 | Some ls \<Rightarrow> has_transfer_event e from_a to_a ls) of
                    None \<Rightarrow> None
                  | Some False \<Rightarrow> Some (Error, w)
                  | Some True \<Rightarrow>
                      Some (st, dispatch (Update_token_cache (contract_address tt) from_a to_a bn) w))
            else Some (st, w)) of
        None \<Rightarrow> (Raised, w, ms)
      | Some (token_tx_status, w1) \<Rightarrow>
          (let ms1 = (if token_tx_status = Confirmed
                      then ms @ [(from_a, to_a, token_tx_status,
                                  SofaTokenPayment (hash tx) from_a to_a token_tx_status
                                    (tok_value tt) (contract_address tt))]
                      else ms);
               w2 = w1\<lparr>db := update_token_status (transaction_id tx) (transaction_log_index tt)
                                 token_tx_status (db w1)\<rparr>;
               ms2 = (if contract_address tt = WETH_CONTRACT_ADDRESS e
                         \<and> (from_a = ZERO_ADDRESS \<or> to_a = ZERO_ADDRESS)
                      then ms1 @ [(from_a, to_a, st,
                                   SofaPayment (tok_value tt) (hash tx) st from_a to_a (network_id e))]
                      else ms1)
           in render_token_txs e tx st lg bn tts w2 ms2))"

text \<open>
  The dispatch of the rendered messages (lines 443-465); \<open>old\<close> is \<open>tx['status']\<close>, the
  status stored before the update. The \<open>return\<close> on a contract deployment (\<open>to_address\<close>
  \<open>0x\<close>) leaves the function, so later messages are not dispatched.
\<close>

fun notify :: "status \<Rightarrow> message list \<Rightarrow> world \<Rightarrow> world" where
  "notify old [] w = w"
| "notify old ((from_a, to_a, st, m) # ms) w =
     (let w1 = dispatch (Send_notification from_a m) w in
      if to_a = ''0x'' then w1
      else
        (let w2 = (if old = New
                   then (if st \<noteq> Error then dispatch (Send_notification to_a m) w1 else w1)
                   else dispatch (Send_notification to_a m) w1)
         in notify old ms (dispatch (Process_transaction_queue to_a 0) w2)))"

text \<open>
  Lines 369-465: the messages of the update (the token transfers' when the transaction
  has any, else one Payment) and their dispatch. A \<open>confirmed\<close> token transaction whose
  receipt the node does not have is handed back to the dispatcher.
\<close>

definition render_messages ::
  "env \<Rightarrow> transaction \<Rightarrow> token_transaction list \<Rightarrow> status \<Rightarrow> int option \<Rightarrow> world \<Rightarrow> outcome \<times> world"
where
  "render_messages e tx token_txs st bn w =
     (if token_txs \<noteq> [] then
        (if st = Confirmed then
           (case eth_getTransactionReceipt (eth e) (hash tx) of
              None \<Rightarrow> (Returned, dispatch (Update_transaction (transaction_id tx) st 0) w)
            | Some rc \<Rightarrow>
                (case render_token_txs e tx st (logs rc) bn token_txs w [] of
                   (Raised, w1, ms) \<Rightarrow> (Raised, w1)
                 | (Returned, w1, ms) \<Rightarrow> (Returned, notify (status tx) ms w1)))
         else
           (case render_token_txs e tx st None bn token_txs w [] of
              (Raised, w1, ms) \<Rightarrow> (Raised, w1)
            | (Returned, w1, ms) \<Rightarrow> (Returned, notify (status tx) ms w1)))
      else
        (Returned,
         notify (status tx)
           [(from_address tx, to_address tx, st,
             SofaPayment (tx_value tx) (hash tx) st (from_address tx) (to_address tx)
               (network_id e))] w))"

text \<open>
  Lines 360-367: \<open>queued\<close> is sent as \<open>unconfirmed\<close>, and an update from \<open>queued\<close> to
  \<open>unconfirmed\<close> sends nothing.
\<close>

definition render_notification ::
  "env \<Rightarrow> transaction \<Rightarrow> token_transaction list \<Rightarrow> status \<Rightarrow> int option \<Rightarrow> world \<Rightarrow> outcome \<times> world"
where
  "render_notification e tx token_txs st bn w =
     (if st = Queued then render_messages e tx token_txs Unconfirmed bn w
      else if st = Unconfirmed \<and> status tx = Queued then (Returned, w)
      else render_messages e tx token_txs st bn w)"

text \<open>
  The body of \<open>update_transaction\<close> (lines 309-465). A \<open>confirmed\<close> update that the node
  does not back with a block number is retried through the dispatcher for up to 60 seconds
  and changes nothing itself.
\<close>

definition update_transaction_body :: "env \<Rightarrow> nat \<Rightarrow> status \<Rightarrow> int \<Rightarrow> world \<Rightarrow> outcome \<times> world" where
  "update_transaction_body e tid st retry_start_time w =
     (case fetch_transaction (db w) tid of
        None \<Rightarrow> (Returned, w)
      | Some tx \<Rightarrow>
          if status tx = st then (Returned, w)
          else
            (let token_txs = fetch_token_txs (db w) tid in
             if status tx = Confirmed then (Returned, w)
             else if st = Confirmed then
               (case (case eth_getTransactionByHash (eth e) (hash tx) of
                        None \<Rightarrow> None
                      | Some ntx \<Rightarrow> blockNumber ntx) of
                  Some bn \<Rightarrow>
                    render_notification e tx token_txs st (Some bn)
                      (w\<lparr>db := update_status_blocknumber tid st bn (db w)\<rparr>)
                | None \<Rightarrow>
                    if retry_start_time > 0 \<and> time_now e - retry_start_time \<ge> 60 then (Returned, w)
                    else (Returned,
                          dispatch (Update_transaction tid st
                            (if retry_start_time = 0 then time_now e else retry_start_time)) w))
             else
               render_notification e tx token_txs st None
                 (w\<lparr>db := update_status tid st (db w)\<rparr>)))"

text \<open>
  \<open>update_transaction\<close> as its callers see it, through \<open>log_unhandled_exceptions\<close>: what
  the body did stays done, and the exception reaches the caller only if the decorator
  raises it again.
\<close>

definition update_transaction :: "env \<Rightarrow> nat \<Rightarrow> status \<Rightarrow> int \<Rightarrow> world \<Rightarrow> outcome \<times> world" where
  "update_transaction e tid st retry_start_time w =
     (case update_transaction_body e tid st retry_start_time w of
        (out, w1) \<Rightarrow> (if reraise e then out else Returned, w1))"

section \<open>The pass of the Queue Processor (_process_transaction_queue)\<close>

definition cost :: "transaction \<Rightarrow> int" where
  "cost t = tx_value t + gas t * gas_price t"

text \<open>\<open>last_blocknumber or 0\<close> and \<open>last_blocknumber or "latest"\<close> (\<open>None\<close> is "latest").\<close>

definition or_zero :: "int option \<Rightarrow> int" where
  "or_zero lb = (case lb of None \<Rightarrow> 0 | Some b \<Rightarrow> b)"

definition or_latest :: "int option \<Rightarrow> int option" where
  "or_latest lb = (case lb of None \<Rightarrow> None | Some b \<Rightarrow> if b = 0 then None else Some b)"

text \<open>
  The queries of the pass. The source orders \<open>transactions_out\<close> by nonce descending
  (rows of one nonce staying in the order of the table) and takes the candidates with
  \<open>pop()\<close> from the end; the model holds the reversed list, which is the order of the
  pops: nonce ascending, the later row of two with one nonce first, the next candidate at
  the head. A comparison of a NULL \<open>blocknumber\<close> is not true in SQL, so such a row is
  not selected by it.
\<close>

definition above :: "int option \<Rightarrow> int \<Rightarrow> bool" where
  "above b lb = (case b of None \<Rightarrow> False | Some x \<Rightarrow> x > lb)"

definition fetch_transactions_out :: "database \<Rightarrow> address \<Rightarrow> transaction list" where
  "fetch_transactions_out d a =
     rev (sort_key (\<lambda>t. - nonce t)
       (filter (\<lambda>t. from_address t = a \<and> (status t = New \<or> status t = Queued) \<and> sig_r t \<noteq> None)
          (transactions d)))"

definition fetch_unconfirmed_txs :: "database \<Rightarrow> address \<Rightarrow> int \<Rightarrow> transaction list" where
  "fetch_unconfirmed_txs d a lb =
     sort_key nonce
       (filter (\<lambda>t. from_address t = a
                  \<and> (status t = Unconfirmed \<or> (status t = Confirmed \<and> above (blocknumber t) lb)))
          (transactions d))"

definition fetch_transactions_in :: "database \<Rightarrow> address \<Rightarrow> int \<Rightarrow> transaction list" where
  "fetch_transactions_in d a lb =
     filter (\<lambda>t. to_address t = a
                \<and> ((status t = New \<or> status t = Queued \<or> status t = Unconfirmed)
                   \<or> (status t = Confirmed \<and> above (blocknumber t) lb)))
       (transactions d)"

definition fetch_old_tx :: "database \<Rightarrow> address \<Rightarrow> int \<Rightarrow> string \<Rightarrow> transaction option" where
  "fetch_old_tx d a n h =
     find (\<lambda>t. from_address t = a \<and> nonce t = n \<and> hash t \<noteq> h) (transactions d)"

definition pending_received :: "transaction list \<Rightarrow> int" where
  "pending_received transactions_in = sum_list (map tx_value transactions_in)"

text \<open>
  Line 286: \<open>any(t['blocknumber'] is not None and t['blocknumber'] > last_blocknumber ...)\<close>
  with the \<open>last_blocknumber\<close> as read, not defaulted: comparing an integer with \<open>None\<close>
  raises \<open>TypeError\<close>, which is the result \<open>None\<close> here.
\<close>

fun any_above :: "int option \<Rightarrow> transaction list \<Rightarrow> bool option" where
  "any_above lb [] = Some False"
| "any_above lb (t # ts) =
     (case blocknumber t of
        None \<Rightarrow> any_above lb ts
      | Some b \<Rightarrow>
          (case lb of
             None \<Rightarrow> None
           | Some l \<Rightarrow> if b > l then Some True else any_above lb ts))"

text \<open>
  The transaction rebuilt from the row (lines 218-223). \<open>data_decoder\<close> turns the hex
  text of the column into bytes; the model keeps the text, empty when the column is.
\<close>

definition create_transaction :: "transaction \<Rightarrow> eth_tx" where
  "create_transaction t =
     \<lparr>etx_nonce = nonce t, etx_value = tx_value t, etx_gasprice = gas_price t,
      etx_startgas = gas t, etx_to = to_address t,
      etx_data = (case data t of None \<Rightarrow> [] | Some d \<Rightarrow> d),
      etx_v = sig_v t, etx_r = sig_r t, etx_s = sig_s t\<rparr>"

definition starts_with :: "string \<Rightarrow> string \<Rightarrow> bool" where
  "starts_with s p = (take (length p) s = p)"

text \<open>The variables of the loop: the state, the working balance, \<open>nonce\<close>, the error marker, the addresses to check.\<close>

record pass_state =
  pw :: world
  balance :: int
  next_nonce :: int
  previous_error :: bool
  addresses_to_check :: "address list"

text \<open>
  How the body of the loop leaves one candidate: \<open>continue\<close> with the candidates still
  to take, \<open>break\<close>, the \<open>return\<close> of line 193, or an exception.
\<close>

datatype step =
    Continue pass_state "transaction list"
  | Break pass_state "transaction list"
  | Return pass_state
  | Raise pass_state

definition add_address :: "address \<Rightarrow> pass_state \<Rightarrow> pass_state" where
  "add_address a ps = ps\<lparr>addresses_to_check := List.insert a (addresses_to_check ps)\<rparr>"

text \<open>
  The recurring three lines: set the candidate to \<open>error\<close>, remember its recipient,
  \<open>continue\<close>.
\<close>

definition error_continue :: "env \<Rightarrow> transaction \<Rightarrow> pass_state \<Rightarrow> transaction list \<Rightarrow> step" where
  "error_continue e t ps rest =
     (case update_transaction e (transaction_id t) Error 0 (pw ps) of
        (Raised, w1) \<Rightarrow> Raise (ps\<lparr>pw := w1\<rparr>)
      | (Returned, w1) \<Rightarrow> Continue (add_address (to_address t) (ps\<lparr>pw := w1\<rparr>)) rest)"

text \<open>
  The inner loops of lines 210-213 and 294-297: the candidate in hand and every one
  still on the list is set to \<open>queued\<close> if the row read at the start of the pass was \<open>new\<close>.
\<close>

fun queue_new :: "env \<Rightarrow> transaction list \<Rightarrow> world \<Rightarrow> outcome \<times> world" where
  "queue_new e [] w = (Returned, w)"
| "queue_new e (t # ts) w =
     (if status t = New
      then (case update_transaction e (transaction_id t) Queued 0 w of
              (Raised, w1) \<Rightarrow> (Raised, w1)
            | (Returned, w1) \<Rightarrow> queue_new e ts w1)
      else queue_new e ts w)"

text \<open>
  \<open>del transactions_out[idx]\<close> for the first index of the source's list that holds the
  id, which is the last one in the order of the pops; nothing when there is none.
\<close>

fun remove_first :: "nat \<Rightarrow> transaction list \<Rightarrow> transaction list" where
  "remove_first i [] = []"
| "remove_first i (t # ts) = (if transaction_id t = i then ts else t # remove_first i ts)"

definition remove_transaction :: "nat \<Rightarrow> transaction list \<Rightarrow> transaction list" where
  "remove_transaction i ts = rev (remove_first i (rev ts))"

text \<open>
  Lines 128-193, the nonce check. \<open>Inr\<close> is falling through to the balance check with
  the state and the list as they then are; \<open>Inl\<close> leaves the body of the loop.
\<close>

definition check_nonce ::
  "env \<Rightarrow> address \<Rightarrow> int \<Rightarrow> pass_state \<Rightarrow> transaction \<Rightarrow> transaction list
     \<Rightarrow> step + pass_state \<times> transaction list"
where
  "check_nonce e a network_nonce ps t rest =
     (if next_nonce ps \<noteq> nonce t \<and> network_nonce \<noteq> nonce t then
        (if status t = New then
           (case fetch_old_tx (db (pw ps)) a (nonce t) (hash t) of
              None \<Rightarrow> Inr (ps, rest)
            | Some old_tx \<Rightarrow>
                if status old_tx = Error then Inr (ps, rest)
                else if status old_tx = Unconfirmed \<or> status old_tx = Confirmed then
                  Inl (error_continue e t (ps\<lparr>previous_error := True\<rparr>) rest)
                else if nonce t > nonce old_tx then
                  (case update_transaction e (transaction_id old_tx) Error 0 (pw ps) of
                     (Raised, w1) \<Rightarrow> Inl (Raise (ps\<lparr>pw := w1\<rparr>))
                   | (Returned, w1) \<Rightarrow>
                       Inr (add_address (to_address old_tx) (ps\<lparr>pw := w1\<rparr>),
                            remove_transaction (transaction_id old_tx) rest))
                else
                  (case update_transaction e (transaction_id t) Error 0 (pw ps) of
                     (Raised, w1) \<Rightarrow> Inl (Raise (ps\<lparr>pw := w1\<rparr>))
                   | (Returned, w1) \<Rightarrow>
                       Inl (Continue
                              (add_address (from_address t)
                                 (add_address (to_address t) (ps\<lparr>pw := w1\<rparr>))) [])))
         else if status t = Queued then
           Inl (error_continue e t (ps\<lparr>previous_error := True\<rparr>) rest)
         else Inl (Return ps))
      else Inr (ps, rest))"

text \<open>
  Lines 233-261: the transaction is handed to the node. On the node's "nonce too low" or
  "already imported" the row follows what the node knows of the hash; on any other error,
  or when the node does not know the hash, the row is set to \<open>error\<close>.
\<close>

definition send_candidate :: "env \<Rightarrow> pass_state \<Rightarrow> transaction \<Rightarrow> transaction list \<Rightarrow> step" where
  "send_candidate e ps t rest =
     (let tx = create_transaction t;
          w0 = (pw ps)\<lparr>sent := sent (pw ps) @ [tx]\<rparr>
      in case eth_sendRawTransaction (eth e) tx of
           Inr h \<Rightarrow>
             (case update_transaction e (transaction_id t) Unconfirmed 0 w0 of
                (Raised, w1) \<Rightarrow> Raise (ps\<lparr>pw := w1\<rparr>)
              | (Returned, w1) \<Rightarrow>
                  Continue (ps\<lparr>pw := w1, balance := balance ps - cost t,
                              next_nonce := (if next_nonce ps = nonce t then next_nonce ps + 1
                                             else next_nonce ps)\<rparr>) rest)
         | Inl msg \<Rightarrow>
             (case (if starts_with msg ''Transaction nonce is too low''
                       \<or> starts_with msg ''Transaction with the same hash was already imported''
                    then eth_getTransactionByHash (eth e) (hash t) else None) of
                Some existing_tx \<Rightarrow>
                  (case update_transaction e (transaction_id t)
                          (if blockNumber existing_tx \<noteq> None then Confirmed else Unconfirmed) 0 w0 of
                     (Raised, w1) \<Rightarrow> Raise (ps\<lparr>pw := w1\<rparr>)
                   | (Returned, w1) \<Rightarrow> Continue (ps\<lparr>pw := w1\<rparr>) rest)
              | None \<Rightarrow>
                  error_continue e t (ps\<lparr>pw := w0, previous_error := True\<rparr>) rest))"

text \<open>
  Lines 204-205: \<open>safe_gas_price and safe_gas_price > gas_price\<close>, where an absent or zero
  floor is false in Python.
\<close>

definition gas_price_too_low :: "world \<Rightarrow> transaction \<Rightarrow> bool" where
  "gas_price_too_low w t =
     (case gas_station_safelow_gas_price w of
        None \<Rightarrow> False
      | Some safe_gas_price \<Rightarrow> safe_gas_price \<noteq> 0 \<and> safe_gas_price > gas_price t)"

text \<open>
  Lines 195-298: the balance check. With enough balance the gas-price floor is read: a
  candidate priced under it puts the pass off for 60 seconds; otherwise the sender is
  recovered from the signature and the transaction is sent. Without enough balance the
  funds on their way to the address decide between \<open>error\<close> and waiting.
\<close>

definition check_balance ::
  "env \<Rightarrow> address \<Rightarrow> int option \<Rightarrow> pass_state \<Rightarrow> transaction \<Rightarrow> transaction list \<Rightarrow> step"
where
  "check_balance e a lb ps t rest =
     (if balance ps \<ge> cost t then
        (if gas_price_too_low (pw ps) t then
           (case queue_new e (t # rest) (dispatch (Process_transaction_queue a 60) (pw ps)) of
              (Raised, w1) \<Rightarrow> Raise (ps\<lparr>pw := w1\<rparr>)
            | (Returned, w1) \<Rightarrow> Break (ps\<lparr>pw := w1\<rparr>) [])
         else if recover_sender e (create_transaction t) \<noteq> a then
           error_continue e t (ps\<lparr>previous_error := True\<rparr>) rest
         else send_candidate e ps t rest)
      else
        (let transactions_in = fetch_transactions_in (db (pw ps)) a (or_zero lb) in
         if balance ps + pending_received transactions_in < cost t then
           error_continue e t (ps\<lparr>previous_error := True\<rparr>) rest
         else
           (case any_above lb transactions_in of
              None \<Rightarrow> Raise ps
            | Some b \<Rightarrow>
                (let ps1 = (if b then add_address a ps else ps) in
                 case queue_new e (t # rest) (pw ps1) of
                   (Raised, w1) \<Rightarrow> Raise (ps1\<lparr>pw := w1\<rparr>)
                 | (Returned, w1) \<Rightarrow> Break (ps1\<lparr>pw := w1\<rparr>) []))))"

text \<open>The body of the loop for the candidate \<open>t\<close> popped from the list, \<open>rest\<close> remaining.\<close>

definition process_candidate ::
  "env \<Rightarrow> address \<Rightarrow> int \<Rightarrow> int option \<Rightarrow> pass_state \<Rightarrow> transaction \<Rightarrow> transaction list \<Rightarrow> step"
where
  "process_candidate e a network_nonce lb ps t rest =
     (if previous_error ps then error_continue e t ps rest
      else
        (case check_nonce e a network_nonce ps t rest of
           Inl stp \<Rightarrow> stp
         | Inr (ps1, rest1) \<Rightarrow> check_balance e a lb ps1 t rest1))"

lemma length_remove_first: "length (remove_first i ts) \<le> length ts"
  by (induction ts) auto

lemma length_remove_transaction: "length (remove_transaction i ts) \<le> length ts"
  using length_remove_first [of i "rev ts"] by (simp add: remove_transaction_def)

lemma error_continue_rest: "error_continue e t ps rest = Continue ps1 rest1 \<Longrightarrow> rest1 = rest"
  by (auto simp: error_continue_def split: prod.splits outcome.splits)

lemma check_nonce_length:
  "check_nonce e a nn ps t rest = Inl (Continue ps1 rest1) \<Longrightarrow> length rest1 \<le> length rest"
  "check_nonce e a nn ps t rest = Inr (ps1, rest1) \<Longrightarrow> length rest1 \<le> length rest"
  by (auto simp: check_nonce_def length_remove_transaction
      split: if_splits option.splits prod.splits outcome.splits dest: error_continue_rest)

lemma send_candidate_rest: "send_candidate e ps t rest = Continue ps1 rest1 \<Longrightarrow> rest1 = rest"
  by (auto simp: send_candidate_def Let_def
      split: sum.splits option.splits prod.splits outcome.splits dest: error_continue_rest)

lemma check_balance_rest: "check_balance e a lb ps t rest = Continue ps1 rest1 \<Longrightarrow> rest1 = rest"
  by (auto simp: check_balance_def Let_def
      split: if_splits option.splits prod.splits outcome.splits
      dest: error_continue_rest send_candidate_rest)

lemma process_candidate_length:
  "process_candidate e a nn lb ps t rest = Continue ps1 rest1 \<Longrightarrow> length rest1 \<le> length rest"
  by (auto simp: process_candidate_def
      split: if_splits sum.splits prod.splits
      dest: error_continue_rest check_nonce_length check_balance_rest)

text \<open>The \<open>while transactions_out\<close> loop of lines 118-298.\<close>

function process_loop ::
  "env \<Rightarrow> address \<Rightarrow> int \<Rightarrow> int option \<Rightarrow> pass_state \<Rightarrow> transaction list \<Rightarrow> step"
where
  "process_loop e a network_nonce lb ps [] = Break ps []"
| "process_loop e a network_nonce lb ps (t # rest) =
     (case process_candidate e a network_nonce lb ps t rest of
        Continue ps1 rest1 \<Rightarrow> process_loop e a network_nonce lb ps1 rest1
      | Break ps1 rest1 \<Rightarrow> Break ps1 rest1
      | Return ps1 \<Rightarrow> Return ps1
      | Raise ps1 \<Rightarrow> Raise ps1)"
  by pat_completeness auto
termination
  by (relation "measure (\<lambda>(e, a, nn, lb, ps, ts). length ts)")
     (auto dest: process_candidate_length)

text \<open>
  Lines 300-306, after the loop: a pass is asked for every address to check but the
  contract-deployment marker, and for the sender itself if candidates are left.
\<close>

fun check_addresses :: "address list \<Rightarrow> world \<Rightarrow> world" where
  "check_addresses [] w = w"
| "check_addresses (x # xs) w =
     check_addresses xs (if x \<noteq> ''0x'' then dispatch (Process_transaction_queue x 0) w else w)"

definition finish_pass :: "address \<Rightarrow> pass_state \<Rightarrow> transaction list \<Rightarrow> world" where
  "finish_pass a ps transactions_out =
     (let w1 = check_addresses (addresses_to_check ps) (pw ps) in
      if transactions_out \<noteq> [] then dispatch (Process_transaction_queue a 0) w1 else w1)"

text \<open>
  \<open>_process_transaction_queue\<close> (lines 60-306) for the address \<open>a\<close>. The addresses to
  check form a set in the source; the model keeps them in the order they were added.
\<close>

definition process_transaction_queue_pass :: "env \<Rightarrow> address \<Rightarrow> world \<Rightarrow> outcome \<times> world" where
  "process_transaction_queue_pass e a w =
     (let lb = last_blocknumber (db w);
          transactions_out = fetch_transactions_out (db w) a
      in if transactions_out \<noteq> [] then
           (let bal = eth_getBalance (eth e) a (or_latest lb);
                unconfirmed_txs = fetch_unconfirmed_txs (db w) a (or_zero lb);
                network_nonce = eth_getTransactionCount (eth e) a (or_latest lb);
                ps = (if unconfirmed_txs \<noteq> []
                      then \<lparr>pw = w, balance = bal - sum_list (map cost unconfirmed_txs),
                            next_nonce = nonce (last unconfirmed_txs) + 1,
                            previous_error = False, addresses_to_check = []\<rparr>
                      else \<lparr>pw = w, balance = bal, next_nonce = network_nonce,
                            previous_error = False, addresses_to_check = []\<rparr>)
            in case process_loop e a network_nonce lb ps transactions_out of
                 Continue ps1 rest1 \<Rightarrow> (Returned, finish_pass a ps1 rest1)
               | Break ps1 rest1 \<Rightarrow> (Returned, finish_pass a ps1 rest1)
               | Return ps1 \<Rightarrow> (Returned, pw ps1)
               | Raise ps1 \<Rightarrow> (Raised, pw ps1))
         else (Returned, w))"

section \<open>The notifications, stated on their own\<close>

text \<open>
  What the notification rules ask the dispatcher for, message by message: the message
  goes to its sender; a message to the deployment marker \<open>0x\<close> ends the dispatch; else
  it goes to its recipient too, unless the stored status \<open>old\<close> is \<open>new\<close> and the
  message reports \<open>error\<close>, and a pass is asked for the recipient's queue.
\<close>

fun notifications :: "status \<Rightarrow> message list \<Rightarrow> task list" where
  "notifications old [] = []"
| "notifications old ((from_a, to_a, st, m) # ms) =
     (if to_a = ''0x'' then [Send_notification from_a m]
      else Send_notification from_a m
           # (if old = New \<and> st = Error then [] else [Send_notification to_a m])
           @ Process_transaction_queue to_a 0 # notifications old ms)"

text \<open>
  Whether the receipt's logs hold the event of a token transfer: \<open>None\<close> where reading
  the topics of a log raises, \<open>Some False\<close> for a receipt without a list of logs.
\<close>

definition transfer_event :: "env \<Rightarrow> log_entry list option \<Rightarrow> token_transaction \<Rightarrow> bool option" where
  "transfer_event e lg tt =
     (case lg of
        None \<Rightarrow> Some False
      | Some ls \<Rightarrow> has_transfer_event e (tok_from_address tt) (tok_to_address tt) ls)"

text \<open>Reading the logs for a token transfer does not raise.\<close>

definition logs_readable :: "env \<Rightarrow> log_entry list option \<Rightarrow> token_transaction \<Rightarrow> bool" where
  "logs_readable e lg tt = (transfer_event e lg tt \<noteq> None)"

text \<open>
  The messages of one token transfer: a TokenPayment if the transfer is confirmed, and a
  Payment with the status of the update if the transfer is a deposit to or a withdrawal
  from the WETH contract.
\<close>

definition transfer_messages ::
  "env \<Rightarrow> transaction \<Rightarrow> status \<Rightarrow> bool \<Rightarrow> token_transaction \<Rightarrow> message list" where
  "transfer_messages e tx st confirmed tt =
     (if confirmed
      then [(tok_from_address tt, tok_to_address tt, Confirmed,
             SofaTokenPayment (hash tx) (tok_from_address tt) (tok_to_address tt) Confirmed
               (tok_value tt) (contract_address tt))]
      else [])
     @ (if contract_address tt = WETH_CONTRACT_ADDRESS e
           \<and> (tok_from_address tt = ZERO_ADDRESS \<or> tok_to_address tt = ZERO_ADDRESS)
        then [(tok_from_address tt, tok_to_address tt, st,
               SofaPayment (tok_value tt) (hash tx) st (tok_from_address tt) (tok_to_address tt)
                 (network_id e))]
        else [])"

text \<open>The refreshes of the token cache: one for every transfer whose event the receipt holds.\<close>

definition token_cache_updates ::
  "env \<Rightarrow> log_entry list option \<Rightarrow> int option \<Rightarrow> token_transaction list \<Rightarrow> task list" where
  "token_cache_updates e lg bn tts =
     map (\<lambda>tt. Update_token_cache (contract_address tt) (tok_from_address tt) (tok_to_address tt) bn)
       (filter (\<lambda>tt. transfer_event e lg tt = Some True) tts)"

text \<open>The status the database holds for a transaction id, if it holds the id.\<close>

definition status_of :: "database \<Rightarrow> nat \<Rightarrow> status option" where
  "status_of d i = map_option status (fetch_transaction d i)"

text \<open>
  The candidates are rows of the database, \<open>new\<close> or \<open>queued\<close>, and the database still
  holds each with the status it was fetched with.
\<close>

definition as_fetched :: "database \<Rightarrow> transaction list \<Rightarrow> bool" where
  "as_fetched d ts =
     list_all (\<lambda>t. (status t = New \<or> status t = Queued)
                  \<and> status_of d (transaction_id t) = Some (status t)) ts"

text \<open>The nonce check lets the candidate through to the balance check.\<close>

definition passes_nonce_check ::
  "env \<Rightarrow> address \<Rightarrow> int \<Rightarrow> pass_state \<Rightarrow> transaction \<Rightarrow> transaction list \<Rightarrow> bool" where
  "passes_nonce_check e a network_nonce ps t rest =
     (case check_nonce e a network_nonce ps t rest of Inl stp \<Rightarrow> False | Inr x \<Rightarrow> True)"

text \<open>The database holds the candidate's row, and not as \<open>confirmed\<close>.\<close>

definition open_row :: "database \<Rightarrow> transaction \<Rightarrow> bool" where
  "open_row d t = (\<exists>s. status_of d (transaction_id t) = Some s \<and> s \<noteq> Confirmed)"

text \<open>The loop's variables as the body of the loop left them.\<close>

fun step_state :: "step \<Rightarrow> pass_state" where
  "step_state (Continue ps ts) = ps"
| "step_state (Break ps ts) = ps"
| "step_state (Return ps) = ps"
| "step_state (Raise ps) = ps"

section \<open>Intake: send_transaction (tokeneth/jsonrpc.py)\<close>

text \<open>
  A row of the intake's \<open>transactions\<close> table, by the columns its statements name.
  \<open>value\<close> and \<open>estimated_gas_cost\<close> are stored as the decimal text of an integer; the
  model holds the integer. \<open>last_status\<close> is \<open>None\<close> for SQL's NULL.
\<close>

record intake_row =
  transaction_hash :: string
  row_from_address :: address
  row_to_address :: address
  row_nonce :: int
  row_value :: int
  estimated_gas_cost :: int
  sender_token_id :: "string option"
  last_status :: "string option"

text \<open>
  The functions of the library \<open>tokenservices\<close> that \<open>send_transaction\<close> calls, as
  parameters. \<open>decode_transaction\<close> and \<open>data_decoder\<close> are \<open>None\<close> where they raise;
  \<open>tx_sender\<close> is \<open>data_encoder(tx.sender)\<close>, the address recovered from the signature,
  and \<open>tx_json_hash\<close> the hash of \<open>transaction_to_json\<close>.
\<close>

record tx_lib =
  decode_transaction :: "string \<Rightarrow> eth_tx option"
  is_transaction_signed :: "eth_tx \<Rightarrow> bool"
  signature_from_transaction :: "eth_tx \<Rightarrow> string"
  validate_signature :: "string \<Rightarrow> bool"
  data_decoder :: "string \<Rightarrow> string option"
  add_signature_to_transaction :: "eth_tx \<Rightarrow> string \<Rightarrow> eth_tx"
  tx_sender :: "eth_tx \<Rightarrow> address"
  tx_json_hash :: "eth_tx \<Rightarrow> string"

text \<open>
  The surroundings of one call: the library, the node, the identity of the authenticated
  client (\<open>self.user_token_id\<close>), whether the application has a block monitor, and the
  default of the column \<open>last_status\<close>, which the table's declaration (not part of the
  sources) decides.
\<close>

record intake_env =
  lib :: tx_lib
  intake_eth :: node
  user_token_id :: "string option"
  has_monitor :: bool
  default_last_status :: "string option"

text \<open>
  The state of the intake: the table, the cached nonce hints (Redis keys \<open>nonce:<address>\<close>,
  read with \<open>int\<close>), the submission locks that are held, the transactions handed to
  \<open>eth_sendRawTransaction\<close>, and the notifications scheduled with \<open>add_callback\<close>.
\<close>

record intake_state =
  rows :: "intake_row list"
  nonce_cache :: "address \<Rightarrow> int option"
  locks :: "(address \<times> int) set"
  raw_sent :: "eth_tx list"
  callbacks :: "eth_tx list"

datatype rpc_error =
    JsonRPCInvalidParamsError string string
  | JsonRPCInsufficientFundsError string string
  | JsonRPCInternalError string string
  | AssertionError

text \<open>Lines 126-163: the transaction is decoded and, if it came unsigned, signed with the separate signature.\<close>

definition attach_signature :: "tx_lib \<Rightarrow> string \<Rightarrow> string option \<Rightarrow> rpc_error + eth_tx" where
  "attach_signature l tx_arg signature =
     (case decode_transaction l tx_arg of
        None \<Rightarrow> Inl (JsonRPCInvalidParamsError ''invalid_transaction'' ''Invalid Transaction'')
      | Some tx \<Rightarrow>
          if is_transaction_signed l tx then
            (case signature of
               None \<Rightarrow> Inr tx
             | Some sg \<Rightarrow>
                 if sg \<noteq> [] \<and> signature_from_transaction l tx \<noteq> sg
                 then Inl (JsonRPCInvalidParamsError ''invalid_signature''
                   ''Invalid Signature: Signature in payload and signature of transaction do not match'')
                 else Inr tx)
          else
            (case signature of
               None \<Rightarrow> Inl (JsonRPCInvalidParamsError ''missing_signature'' ''Missing Signature'')
             | Some sg \<Rightarrow>
                 if \<not> validate_signature l sg
                 then Inl (JsonRPCInvalidParamsError ''invalid_signature''
                        (''Invalid Signature: ''
                         @ (if length sg \<noteq> 132 then ''Invalid length'' else ''Invalid hex value'')))
                 else
                   (case data_decoder l sg of
                      None \<Rightarrow> Inl (JsonRPCInvalidParamsError ''invalid_signature'' ''Invalid Signature'')
                    | Some bytes \<Rightarrow> Inr (add_signature_to_transaction l tx bytes))))"

text \<open>
  Modelled from the spec: \<open>BalanceMixin.get_balances\<close> (tokeneth/mixins.py is not among
  the sources). Section 4.1, step 5, and section 6 of the specification: the confirmed
  balance is the chain balance; the other balance is the confirmed one minus the
  outstanding cost of the sender's own unconfirmed outgoing transactions, plus the funds
  of the unconfirmed transactions on their way to the address unless
  \<open>ignore_pending_recieved\<close> is set.
\<close>

definition outstanding_cost :: "intake_row list \<Rightarrow> address \<Rightarrow> int" where
  "outstanding_cost rs a =
     sum_list (map (\<lambda>r. row_value r + estimated_gas_cost r)
       (filter (\<lambda>r. row_from_address r = a \<and> last_status r = Some ''unconfirmed'') rs))"

definition get_balances :: "node \<Rightarrow> intake_row list \<Rightarrow> address \<Rightarrow> bool \<Rightarrow> int \<times> int" where
  "get_balances nd rs a ignore_pending_recieved =
     (let confirmed = eth_getBalance nd a None;
          received = (if ignore_pending_recieved then 0
                      else sum_list (map row_value
                             (filter (\<lambda>r. row_to_address r = a \<and> last_status r = Some ''unconfirmed'') rs)))
      in (confirmed, confirmed + received - outstanding_cost rs a))"

text \<open>
  Line 175: the row of the sender and nonce whose \<open>last_status\<close> is not \<open>error\<close>. In SQL
  the comparison of a NULL \<open>last_status\<close> is not true, so such a row is not found.
\<close>

definition fetch_existing :: "intake_row list \<Rightarrow> address \<Rightarrow> int \<Rightarrow> intake_row option" where
  "fetch_existing rs a n =
     find (\<lambda>r. row_from_address r = a \<and> row_nonce r = n
                \<and> (case last_status r of None \<Rightarrow> False | Some s \<Rightarrow> s \<noteq> ''error'')) rs"

text \<open>
  Lines 193-199: the nonce the submission must carry. The cache holds what line 218
  wrote, the decimal text of an integer, so a cached value is read with \<open>int\<close>.
\<close>

definition expected_nonce :: "intake_env \<Rightarrow> intake_state \<Rightarrow> address \<Rightarrow> int" where
  "expected_nonce e st a =
     (let nw_nonce = eth_getTransactionCount (intake_eth e) a None
      in case nonce_cache st a of
           None \<Rightarrow> nw_nonce
         | Some c_nonce \<Rightarrow> if nw_nonce > c_nonce then nw_nonce else c_nonce)"

definition tx_cost :: "eth_tx \<Rightarrow> int" where
  "tx_cost tx = etx_value tx + etx_startgas tx * etx_gasprice tx"

text \<open>Lines 221-225: the row of the INSERT, which names no status.\<close>

definition inserted_row :: "intake_env \<Rightarrow> eth_tx \<Rightarrow> string \<Rightarrow> intake_row" where
  "inserted_row e tx tx_hash =
     \<lparr>transaction_hash = tx_hash, row_from_address = tx_sender (lib e) tx,
      row_to_address = etx_to tx, row_nonce = etx_nonce tx, row_value = etx_value tx,
      estimated_gas_cost = etx_startgas tx * etx_gasprice tx,
      sender_token_id = user_token_id e, last_status = default_last_status e\<rparr>"

text \<open>
  Modelled from the spec: \<open>RedisLock\<close> (tokeneth/utils.py is not among the sources).
  Section 4.1, step 3, and section 5 of the specification: the lock of the sender and
  nonce is taken if no one holds it, the submission fails with "Nonce already used" if
  someone does, and the lock is held only while the steps run, so the locks that others
  hold are the same before and after.
\<close>

definition submission_locked :: "intake_state \<Rightarrow> address \<Rightarrow> int \<Rightarrow> bool" where
  "submission_locked st a n = ((a, n) \<in> locks st)"

text \<open>Lines 165-235, with the transaction signed.\<close>

definition admit :: "intake_env \<Rightarrow> eth_tx \<Rightarrow> intake_state \<Rightarrow> (rpc_error + string) \<times> intake_state" where
  "admit e tx st =
     (let from_a = tx_sender (lib e) tx in
      if submission_locked st from_a (etx_nonce tx)
      then (Inl (JsonRPCInvalidParamsError ''invalid_nonce'' ''Nonce already used''), st)
      else
        (case fetch_existing (rows st) from_a (etx_nonce tx) of
           Some existing \<Rightarrow>
             (Inl (JsonRPCInvalidParamsError ''invalid_nonce'' ''Nonce already used''), st)
         | None \<Rightarrow>
             if snd (get_balances (intake_eth e) (rows st) from_a True) < tx_cost tx
             then (Inl (JsonRPCInsufficientFundsError ''insufficient_funds'' ''Insufficient Funds''), st)
             else if etx_nonce tx < expected_nonce e st from_a
             then (Inl (JsonRPCInvalidParamsError ''invalid_nonce'' ''Provided nonce is too low''), st)
             else if etx_nonce tx > expected_nonce e st from_a
             then (Inl (JsonRPCInvalidParamsError ''invalid_nonce'' ''Provided nonce is too high''), st)
             else
               (case eth_sendRawTransaction (intake_eth e) tx of
                  Inl msg \<Rightarrow>
                    (Inl (JsonRPCInternalError ''unexpected_error''
                       ''An error occured communicating with the ethereum network, try again later''),
                     st\<lparr>raw_sent := raw_sent st @ [tx]\<rparr>)
                | Inr tx_hash \<Rightarrow>
                    (let st1 = st\<lparr>raw_sent := raw_sent st @ [tx],
                                  nonce_cache := (nonce_cache st)(from_a \<mapsto> etx_nonce tx + 1),
                                  rows := rows st @ [inserted_row e tx tx_hash]\<rparr>
                     in if has_monitor e
                        then (if tx_json_hash (lib e) tx = tx_hash
                              then (Inr tx_hash, st1\<lparr>callbacks := callbacks st1 @ [tx]\<rparr>)
                              else (Inl AssertionError, st1))
                        else (Inr tx_hash, st1)))))"

definition send_transaction ::
  "intake_env \<Rightarrow> string \<Rightarrow> string option \<Rightarrow> intake_state \<Rightarrow> (rpc_error + string) \<times> intake_state"
where
  "send_transaction e tx_arg signature st =
     (case attach_signature (lib e) tx_arg signature of
        Inl err \<Rightarrow> (Inl err, st)
      | Inr tx \<Rightarrow> admit e tx st)"

section \<open>The per-address lock of the Queue Processor (process_transaction_queue)\<close>

text \<open>
  \<open>process_transaction_queue\<close> (lines 33-58) for one address, as the interleaving of
  its invocations. Every \<open>await\<close> on Redis is a point where another invocation may run,
  so an invocation is at one of these places:
  \<^item> \<open>Start\<close>: before the \<open>SET ... NX\<close> of line 37;
  \<^item> \<open>Contended\<close>: the \<open>SET\<close> found the key; before the \<open>SET\<close> of the flag (line 41);
  \<^item> \<open>Passing\<close>: in \<open>_process_transaction_queue\<close> (line 44), up to the \<open>MULTI/EXEC\<close>
    that reads and deletes the flag (lines 45-50);
  \<^item> \<open>Renewing\<close>: the flag was set; before the \<open>SET\<close> that renews the key (line 53);
  \<^item> \<open>Releasing\<close>: the loop is left; before the \<open>DELETE\<close> of the key (line 58);
  \<^item> \<open>Finished\<close>: returned.
  \<open>passes\<close> counts the passes the invocation has begun. The pass itself never touches the
  two keys; what it asks of the dispatcher are further invocations. The expiry of the key
  after 120 seconds is real time and is no step of this model.
\<close>

datatype pc = Start | Contended | Passing | Renewing | Releasing | Finished

record worker =
  pc :: pc
  passes :: nat

text \<open>
  The two Redis keys of the address, \<open>processing_tx_queue:<address>\<close> and
  \<open>processing_tx_queue:<address>:should_re_run\<close>, by their presence, and the invocations.
\<close>

record queue_lock =
  processing :: bool
  should_re_run :: bool
  workers :: "worker list"

text \<open>An invocation that took the key and has not yet deleted it.\<close>

definition active :: "worker \<Rightarrow> bool" where
  "active w = (pc w = Passing \<or> pc w = Renewing \<or> pc w = Releasing)"

definition set_worker :: "nat \<Rightarrow> worker \<Rightarrow> queue_lock \<Rightarrow> queue_lock" where
  "set_worker i w s = s\<lparr>workers := (workers s)[i := w]\<rparr>"

text \<open>
  One step of the invocation \<open>i\<close>; \<open>raises\<close> says whether the pass it is in ends with an
  exception, which the \<open>except\<close> of line 55 catches before line 58 deletes the key. The
  \<open>return\<close> of line 42 leaves the function without reaching line 58.
\<close>

definition process_transaction_queue_step :: "bool \<Rightarrow> nat \<Rightarrow> queue_lock \<Rightarrow> queue_lock" where
  "process_transaction_queue_step raises i s =
     (if i < length (workers s) then
        (let w = workers s ! i in
         case pc w of
           Start \<Rightarrow>
             if processing s then set_worker i (w\<lparr>pc := Contended\<rparr>) s
             else set_worker i (w\<lparr>pc := Passing, passes := passes w + 1\<rparr>) (s\<lparr>processing := True\<rparr>)
         | Contended \<Rightarrow> set_worker i (w\<lparr>pc := Finished\<rparr>) (s\<lparr>should_re_run := True\<rparr>)
         | Passing \<Rightarrow>
             if raises then set_worker i (w\<lparr>pc := Releasing\<rparr>) s
             else set_worker i (w\<lparr>pc := (if should_re_run s then Renewing else Releasing)\<rparr>)
                    (s\<lparr>should_re_run := False\<rparr>)
         | Renewing \<Rightarrow>
             set_worker i (w\<lparr>pc := Passing, passes := passes w + 1\<rparr>) (s\<lparr>processing := True\<rparr>)
         | Releasing \<Rightarrow> set_worker i (w\<lparr>pc := Finished\<rparr>) (s\<lparr>processing := False\<rparr>)
         | Finished \<Rightarrow> s)
      else s)"

text \<open>A schedule: which invocation steps next, and how its pass ends if it is in one.\<close>

fun run_schedule :: "(nat \<times> bool) list \<Rightarrow> queue_lock \<Rightarrow> queue_lock" where
  "run_schedule [] s = s"
| "run_schedule ((i, raises) # evs) s = run_schedule evs (process_transaction_queue_step raises i s)"

text \<open>How many invocations hold the key, and the invariant: at most one, and then the key is there.\<close>

definition running :: "queue_lock \<Rightarrow> nat" where
  "running s = length (filter active (workers s))"

definition exclusive :: "queue_lock \<Rightarrow> bool" where
  "exclusive s = (running s = 0 \<or> (running s = 1 \<and> processing s))"

section \<open>Example data\<close>

text \<open>
  A node that answers every \<open>eth_sendRawTransaction\<close> with \<open>ans\<close>, knows no transaction,
  and reports the balance \<open>bal\<close> and the transaction count 0 for every address.
\<close>

definition ex_node :: "int \<Rightarrow> string + string \<Rightarrow> node" where
  "ex_node bal ans =
     \<lparr>eth_getBalance = (\<lambda>a b. bal), eth_getTransactionCount = (\<lambda>a b. 0),
      eth_getTransactionByHash = (\<lambda>h. None), eth_getTransactionReceipt = (\<lambda>h. None),
      eth_sendRawTransaction = (\<lambda>tx. ans)\<rparr>"

text \<open>Surroundings in which every signature recovers to \<open>sender\<close>.\<close>

definition ex_env :: "int \<Rightarrow> address \<Rightarrow> env" where
  "ex_env bal sender =
     \<lparr>eth = ex_node bal (Inr ''0xh''), TRANSFER_TOPIC = ''T'', DEPOSIT_TOPIC = ''D'',
      WITHDRAWAL_TOPIC = ''W'', WETH_CONTRACT_ADDRESS = ''0xweth'', network_id = 1,
      decode_single_address = (\<lambda>x. x), recover_sender = (\<lambda>tx. sender), time_now = 1000,
      reraise = True\<rparr>"

text \<open>A signed transaction of 10 wei and gas 1 from \<open>0xa\<close> to \<open>to_a\<close>, with the hash \<open>h\<close>.\<close>

definition ex_tx :: "nat \<Rightarrow> string \<Rightarrow> address \<Rightarrow> int \<Rightarrow> int \<Rightarrow> status \<Rightarrow> transaction" where
  "ex_tx i h to_a n gp st =
     \<lparr>transaction_id = i, hash = h, from_address = ''0xa'', to_address = to_a, nonce = n,
      tx_value = 10, gas = 1, gas_price = gp, data = None, sig_v = Some 27, sig_r = Some 1,
      sig_s = Some 1, status = st, blocknumber = None\<rparr>"

definition ex_world :: "transaction list \<Rightarrow> int option \<Rightarrow> world" where
  "ex_world ts floor =
     \<lparr>db = \<lparr>transactions = ts, token_transactions = [], tokens = [], last_blocknumber = Some 5\<rparr>,
      gas_station_safelow_gas_price = floor, sent = [], outbox = []\<rparr>"

text \<open>
  A world whose one transaction, still \<open>new\<close>, carries a transfer of a registered token.
\<close>

definition ex_token_world :: world where
  "ex_token_world =
     \<lparr>db = \<lparr>transactions = [ex_tx 1 ''0xh1'' ''0xc'' 0 1 New],
            token_transactions =
              [\<lparr>tok_transaction_id = 1, transaction_log_index = 0, contract_address = ''0xc'',
                tok_from_address = ''0xa'', tok_to_address = ''0xb'', tok_value = 7,
                tok_status = New\<rparr>],
            tokens = [''0xc''], last_blocknumber = Some 5\<rparr>,
      gas_station_safelow_gas_price = None, sent = [], outbox = []\<rparr>"

text \<open>
  The loop's variables at a candidate with nonce 0 expected, a queue of two \<open>new\<close>
  transactions of cost 11 each from \<open>0xa\<close>, and an unconfirmed payment of 10 to \<open>0xa\<close>.
\<close>

definition ex_pass_state :: "world \<Rightarrow> int \<Rightarrow> pass_state" where
  "ex_pass_state w bal =
     \<lparr>pw = w, balance = bal, next_nonce = 0, previous_error = False, addresses_to_check = []\<rparr>"

definition ex_queue :: "transaction list" where
  "ex_queue = [ex_tx 1 ''0xh1'' ''0xb'' 0 1 New, ex_tx 2 ''0xh2'' ''0xb'' 1 1 New]"

definition ex_inbound :: transaction where
  "ex_inbound = (ex_tx 3 ''0xh3'' ''0xa'' 0 1 Unconfirmed)\<lparr>from_address := ''0xc''\<rparr>"

text \<open>
  Two signed transactions of \<open>0xa\<close> with the nonce 5, which is neither the expected
  nonce nor the chain's (both 0): the \<open>new\<close> one pays the gas price 30, the \<open>queued\<close> one 20.
\<close>

definition ex_overwrite :: "transaction list" where
  "ex_overwrite = [ex_tx 1 ''0xh1'' ''0xb'' 5 20 Queued, ex_tx 2 ''0xh2'' ''0xb'' 5 30 New]"

text \<open>
  An intake whose library decodes every text to one signed transaction of \<open>0xa\<close> with
  nonce \<open>n\<close>, value 10, gas 1 at the price 1, submitted by the client \<open>0xclient\<close>; the
  table's \<open>last_status\<close> has no default.
\<close>

definition ex_signed :: "int \<Rightarrow> eth_tx" where
  "ex_signed n =
     \<lparr>etx_nonce = n, etx_value = 10, etx_gasprice = 1, etx_startgas = 1, etx_to = ''0xb'',
      etx_data = [], etx_v = Some 27, etx_r = Some 1, etx_s = Some 1\<rparr>"

definition ex_lib :: "int \<Rightarrow> tx_lib" where
  "ex_lib n =
     \<lparr>decode_transaction = (\<lambda>x. Some (ex_signed n)), is_transaction_signed = (\<lambda>tx. True),
      signature_from_transaction = (\<lambda>tx. ''sig''), validate_signature = (\<lambda>x. True),
      data_decoder = (\<lambda>x. Some x), add_signature_to_transaction = (\<lambda>tx sg. tx),
      tx_sender = (\<lambda>tx. ''0xa''), tx_json_hash = (\<lambda>tx. ''0xh'')\<rparr>"

definition ex_intake_env :: "int \<Rightarrow> int \<Rightarrow> intake_env" where
  "ex_intake_env n bal =
     \<lparr>lib = ex_lib n, intake_eth = ex_node bal (Inr ''0xh''), user_token_id = Some ''0xclient'',
      has_monitor = True, default_last_status = None\<rparr>"

definition ex_intake_state :: "intake_row list \<Rightarrow> intake_state" where
  "ex_intake_state rs =
     \<lparr>rows = rs, nonce_cache = Map.empty(''0xa'' \<mapsto> 3), locks = {}, raw_sent = [], callbacks = []\<rparr>"

text \<open>
  Rows of the intake's table: an unconfirmed payment of \<open>0xa\<close> that costs 10, and an
  unconfirmed payment of 100 to \<open>0xa\<close>.
\<close>

definition ex_rows :: "intake_row list" where
  "ex_rows =
     [\<lparr>transaction_hash = ''0xh2'', row_from_address = ''0xa'', row_to_address = ''0xb'',
       row_nonce = 2, row_value = 9, estimated_gas_cost = 1, sender_token_id = None,
       last_status = Some ''unconfirmed''\<rparr>,
      \<lparr>transaction_hash = ''0xh9'', row_from_address = ''0xc'', row_to_address = ''0xa'',
       row_nonce = 0, row_value = 100, estimated_gas_cost = 1, sender_token_id = None,
       last_status = Some ''unconfirmed''\<rparr>]"

text \<open>Two invocations for one address, neither begun, and neither key set.\<close>

definition ex_lock :: queue_lock where
  "ex_lock = \<lparr>processing = False, should_re_run = False,
              workers = [\<lparr>pc = Start, passes = 0\<rparr>, \<lparr>pc = Start, passes = 0\<rparr>]\<rparr>"

text \<open>
  A confirmed payment of 10 to \<open>0xa\<close> in block 7, and the example world with a given
  content of the table \<open>last_blocknumber\<close>.
\<close>

definition ex_confirmed_inbound :: transaction where
  "ex_confirmed_inbound =
     (ex_tx 3 ''0xh3'' ''0xa'' 0 1 Confirmed)\<lparr>from_address := ''0xc'', blocknumber := Some 7\<rparr>"

definition ex_world_at :: "int option \<Rightarrow> transaction list \<Rightarrow> world" where
  "ex_world_at lb ts =
     \<lparr>db = \<lparr>transactions = ts, token_transactions = [], tokens = [], last_blocknumber = lb\<rparr>,
      gas_station_safelow_gas_price = None, sent = [], outbox = []\<rparr>"

text \<open>
  Surroundings whose node has the transaction in block 9, with a receipt that holds the
  Transfer event from \<open>0xa\<close> to \<open>0xb\<close>.
\<close>

definition ex_token_env :: env where
  "ex_token_env =
     (ex_env 100 ''0xa'')
       \<lparr>eth := (ex_node 100 (Inr ''0xh''))
          \<lparr>eth_getTransactionByHash := (\<lambda>h. Some \<lparr>blockNumber = Some 9\<rparr>),
           eth_getTransactionReceipt :=
             (\<lambda>h. Some \<lparr>logs = Some [\<lparr>log_address = ''0xc'',
                                        topics = [''T'', ''0xa'', ''0xb'']\<rparr>]\<rparr>)\<rparr>\<rparr>"

section \<open>What update_transaction leaves alone\<close>

lemma dispatch_frame [simp]:
  "db (dispatch t w) = db w"
  "sent (dispatch t w) = sent w"
  "gas_station_safelow_gas_price (dispatch t w) = gas_station_safelow_gas_price w"
  "outbox (dispatch t w) = outbox w @ [t]"
  by (simp_all add: dispatch_def)

lemma notify_frame [simp]:
  "db (notify old ms w) = db w"
  "sent (notify old ms w) = sent w"
  "gas_station_safelow_gas_price (notify old ms w) = gas_station_safelow_gas_price w"
  by (induction old ms w rule: notify.induct; simp add: Let_def)+

lemma update_token_status_frame [simp]:
  "transactions (update_token_status i li st d) = transactions d"
  "last_blocknumber (update_token_status i li st d) = last_blocknumber d"
  "tokens (update_token_status i li st d) = tokens d"
  by (simp_all add: update_token_status_def)

lemma render_token_txs_frame:
  "render_token_txs e tx st lg bn tts w ms = (out, w1, ms1) \<Longrightarrow>
     transactions (db w1) = transactions (db w) \<and> last_blocknumber (db w1) = last_blocknumber (db w)
     \<and> sent w1 = sent w \<and> gas_station_safelow_gas_price w1 = gas_station_safelow_gas_price w"
proof (induction tts arbitrary: w ms)
  case Nil
  then show ?case by simp
next
  case (Cons tt tts)
  then show ?case
    by (auto simp: Let_def split: if_splits option.splits bool.splits)
qed

lemma render_messages_frame:
  "render_messages e tx tts st bn w = (out, w1) \<Longrightarrow>
     transactions (db w1) = transactions (db w) \<and> last_blocknumber (db w1) = last_blocknumber (db w)
     \<and> sent w1 = sent w \<and> gas_station_safelow_gas_price w1 = gas_station_safelow_gas_price w"
  by (auto simp: render_messages_def simp del: notify.simps render_token_txs.simps
      split: if_splits option.splits prod.splits outcome.splits
      dest!: render_token_txs_frame)

lemma render_notification_frame:
  "render_notification e tx tts st bn w = (out, w1) \<Longrightarrow>
     transactions (db w1) = transactions (db w) \<and> last_blocknumber (db w1) = last_blocknumber (db w)
     \<and> sent w1 = sent w \<and> gas_station_safelow_gas_price w1 = gas_station_safelow_gas_price w"
  by (auto simp: render_notification_def split: if_splits dest!: render_messages_frame)


lemma update_transaction_body_frame:
  "update_transaction_body e i st r w = (out, w1) \<Longrightarrow>
     last_blocknumber (db w1) = last_blocknumber (db w)
     \<and> sent w1 = sent w \<and> gas_station_safelow_gas_price w1 = gas_station_safelow_gas_price w"
  by (auto simp: update_transaction_body_def Let_def update_status_def update_status_blocknumber_def
      split: if_splits option.splits dest!: render_notification_frame)

lemma update_transaction_frame:
  "update_transaction e i st r w = (out, w1) \<Longrightarrow>
     last_blocknumber (db w1) = last_blocknumber (db w)
     \<and> sent w1 = sent w \<and> gas_station_safelow_gas_price w1 = gas_station_safelow_gas_price w"
  by (auto simp: update_transaction_def split: prod.splits dest!: update_transaction_body_frame)

lemma update_transaction_body_transactions:
  "update_transaction_body e i st r w = (out, w1) \<Longrightarrow> st \<noteq> Confirmed \<Longrightarrow>
     transactions (db w1) =
       (case fetch_transaction (db w) i of
          None \<Rightarrow> transactions (db w)
        | Some tx \<Rightarrow> if status tx = st \<or> status tx = Confirmed then transactions (db w)
                     else transactions (update_status i st (db w)))"
  by (auto simp: update_transaction_body_def Let_def
      split: if_splits option.splits dest!: render_notification_frame)

lemma update_transaction_body_transactions_confirmed:
  "update_transaction_body e i Confirmed r w = (out, w1) \<Longrightarrow>
     transactions (db w1) = transactions (db w)
     \<or> (\<exists>bn tx. fetch_transaction (db w) i = Some tx \<and> status tx \<noteq> Confirmed
            \<and> transactions (db w1) = transactions (update_status_blocknumber i Confirmed bn (db w)))"
  by (auto simp: update_transaction_body_def Let_def
      split: if_splits option.splits dest!: render_notification_frame)

lemma find_map_status:
  "find (\<lambda>t. transaction_id t = j) (map (\<lambda>t. if transaction_id t = i then f t else t) ts) =
     (if j = i then map_option f (find (\<lambda>t. transaction_id t = j) ts)
      else find (\<lambda>t. transaction_id t = j) ts)"
  if "\<And>t. transaction_id (f t) = transaction_id t"
  using that by (induction ts) auto

lemma status_of_update_status:
  "status_of (update_status i st d) j =
     (if j = i then map_option (\<lambda>_. st) (status_of d i) else status_of d j)"
  by (simp add: status_of_def fetch_transaction_def update_status_def find_map_status
      option.map_comp comp_def)

lemma status_of_update_status_blocknumber:
  "status_of (update_status_blocknumber i st bn d) j =
     (if j = i then map_option (\<lambda>_. st) (status_of d i) else status_of d j)"
  by (simp add: status_of_def fetch_transaction_def update_status_blocknumber_def find_map_status
      option.map_comp comp_def)

section \<open>Properties of update_transaction\<close>

text \<open>
  C2. A call of \<open>update_transaction\<close> on a transaction whose stored status is
  \<open>confirmed\<close> returns with the whole state as it was: the row is unchanged and
  nothing is dispatched, whether the requested status is \<open>confirmed\<close> again (the
  no-op) or any other status (the rejected transition).
\<close>

theorem update_transaction_confirmed_unchanged:
  assumes "fetch_transaction (db w) tid = Some tx"
    and "status tx = Confirmed"
  shows "update_transaction e tid st retry_start_time w = (Returned, w)"
  using assms by (simp add: update_transaction_def update_transaction_body_def)

theorem update_transaction_confirmed_unchanged_witness:
  "fetch_transaction (db (ex_world [ex_tx 1 ''0xh1'' ''0xb'' 0 1 Confirmed] None)) 1
     = Some (ex_tx 1 ''0xh1'' ''0xb'' 0 1 Confirmed)
   \<and> status (ex_tx 1 ''0xh1'' ''0xb'' 0 1 Confirmed) = Confirmed
   \<and> update_transaction (ex_env 100 ''0xa'') 1 Error 0
         (ex_world [ex_tx 1 ''0xh1'' ''0xb'' 0 1 Confirmed] None)
       = (Returned, ex_world [ex_tx 1 ''0xh1'' ''0xb'' 0 1 Confirmed] None)"
proof -
  have f: "fetch_transaction (db (ex_world [ex_tx 1 ''0xh1'' ''0xb'' 0 1 Confirmed] None)) 1
             = Some (ex_tx 1 ''0xh1'' ''0xb'' 0 1 Confirmed)"
    by (simp add: fetch_transaction_def ex_world_def ex_tx_def)
  have c: "status (ex_tx 1 ''0xh1'' ''0xb'' 0 1 Confirmed) = Confirmed"
    by (simp add: ex_tx_def)
  show ?thesis
    using f c update_transaction_confirmed_unchanged [OF f c, of "ex_env 100 ''0xa''" Error 0]
    by simp
qed

section \<open>What update_transaction does to a status\<close>

lemma status_of_cong: "transactions d = transactions d' \<Longrightarrow> status_of d i = status_of d' i"
  by (simp add: status_of_def fetch_transaction_def)

lemma render_token_txs_returned:
  "st \<noteq> Confirmed \<Longrightarrow> fst (render_token_txs e tx st lg bn tts w ms) = Returned"
  by (induction tts arbitrary: w ms) (simp_all add: Let_def)

lemma render_messages_returned:
  "st \<noteq> Confirmed \<Longrightarrow> fst (render_messages e tx tts st bn w) = Returned"
  using render_token_txs_returned [of st e tx None bn tts w "[]"]
  by (auto simp: render_messages_def simp del: notify.simps render_token_txs.simps
      split: prod.splits outcome.splits)

lemma render_messages_returned_eq:
  "render_messages e tx tts st bn w = (out, w1) \<Longrightarrow> st \<noteq> Confirmed \<Longrightarrow> out = Returned"
  using render_messages_returned [of st e tx tts bn w] by simp

lemma render_notification_returned_eq:
  "render_notification e tx tts st bn w = (out, w1) \<Longrightarrow> st \<noteq> Confirmed \<Longrightarrow> out = Returned"
  by (auto simp: render_notification_def split: if_splits dest: render_messages_returned_eq)

lemma update_transaction_body_returned_eq:
  "update_transaction_body e i st r w = (out, w1) \<Longrightarrow> st \<noteq> Confirmed \<Longrightarrow> out = Returned"
  by (auto simp: update_transaction_body_def Let_def split: option.splits if_splits
      dest: render_notification_returned_eq)

lemma update_transaction_returned_eq:
  "update_transaction e i st r w = (out, w1) \<Longrightarrow> st \<noteq> Confirmed \<Longrightarrow> out = Returned"
  by (auto simp: update_transaction_def split: prod.splits if_splits
      dest: update_transaction_body_returned_eq)

lemma update_transaction_status_other:
  assumes "update_transaction e i st r w = (out, w1)" and "j \<noteq> i"
  shows "status_of (db w1) j = status_of (db w) j"
proof -
  obtain o2 where b: "update_transaction_body e i st r w = (o2, w1)"
    using assms(1) by (auto simp: update_transaction_def split: prod.splits)
  show ?thesis
  proof (cases "st = Confirmed")
    case True
    with b update_transaction_body_transactions_confirmed [of e i r w o2 w1]
    show ?thesis using assms(2)
      by (auto simp: status_of_update_status_blocknumber
          dest: status_of_cong [where i = j])
  next
    case False
    with b update_transaction_body_transactions [of e i st r w o2 w1]
    have "transactions (db w1) = transactions (db w)
          \<or> transactions (db w1) = transactions (update_status i st (db w))"
      by (auto split: option.splits if_splits)
    then show ?thesis using assms(2)
      by (auto simp: status_of_update_status dest: status_of_cong [where i = j])
  qed
qed

lemma update_transaction_status_set:
  assumes "update_transaction e i st r w = (out, w1)" and "st \<noteq> Confirmed"
    and "status_of (db w) i = Some old" and "old \<noteq> Confirmed"
  shows "status_of (db w1) i = Some st"
proof -
  obtain o2 where b: "update_transaction_body e i st r w = (o2, w1)"
    using assms(1) by (auto simp: update_transaction_def split: prod.splits)
  obtain tx where tx: "fetch_transaction (db w) i = Some tx" "status tx = old"
    using assms(3) by (auto simp: status_of_def)
  show ?thesis
  proof (cases "old = st")
    case True
    with b tx assms(2,4) update_transaction_body_transactions [of e i st r w o2 w1]
    have "transactions (db w1) = transactions (db w)" by simp
    then show ?thesis using assms(3) True by (simp add: status_of_cong [of "db w1" "db w"])
  next
    case False
    with b tx assms(2,4) update_transaction_body_transactions [of e i st r w o2 w1]
    have "transactions (db w1) = transactions (update_status i st (db w))" by simp
    then show ?thesis using assms(3)
      by (simp add: status_of_cong [of "db w1" "update_status i st (db w)"] status_of_update_status)
  qed
qed

lemma update_transaction_status_keep:
  assumes "update_transaction e i st r w = (out, w1)" and "st \<noteq> Confirmed"
    and "status_of (db w) j = Some st"
  shows "status_of (db w1) j = Some st"
proof (cases "j = i")
  case True
  then show ?thesis using assms update_transaction_status_set [of e i st r w out w1 st] by simp
next
  case False
  then show ?thesis using assms update_transaction_status_other [of e i st r w out w1 j] by simp
qed

section \<open>The notifications of a status update\<close>

text \<open>
  C9, as the code has it. The claim's last rule, that every other transition notifies both
  addresses, does not hold: a transaction that carries token transfers renders a message
  only for a confirmed transfer or a WETH deposit or withdrawal, and a contract deployment
  (\<open>to_address\<close> \<open>0x\<close>) notifies the sender alone. In the first example below a \<open>new\<close>
  token transaction becomes \<open>unconfirmed\<close> and nobody is notified; in the second an
  \<open>unconfirmed\<close> deployment becomes \<open>error\<close> and only the sender is.
\<close>

theorem notify_both_counterexample:
  "outbox (snd (update_transaction (ex_env 100 ''0xa'') 1 Unconfirmed 0 ex_token_world)) = []
   \<and> status_of (db (snd (update_transaction (ex_env 100 ''0xa'') 1 Unconfirmed 0 ex_token_world))) 1
       = Some Unconfirmed
   \<and> outbox (snd (update_transaction (ex_env 100 ''0xa'') 1 Error 0
        (ex_world [ex_tx 1 ''0xh1'' ''0x'' 0 1 Unconfirmed] None)))
       = [Send_notification ''0xa'' (SofaPayment 10 ''0xh1'' Error ''0xa'' ''0x'' 1)]"
  by (simp add: update_transaction_def update_transaction_body_def render_notification_def
      render_messages_def Let_def fetch_token_txs_def update_status_def fetch_transaction_def
      ex_token_world_def ex_world_def ex_tx_def ex_env_def ex_node_def status_of_def
      update_token_status_def dispatch_def)

text \<open>
  The dispatch and the loop over the token transfers against the notifications stated on
  their own: \<open>notify\<close> adds \<open>notifications\<close> to the dispatcher's outbox, and the loop
  collects the \<open>transfer_messages\<close> of every transfer, asking for a refresh of the token
  cache for the confirmed ones; it raises at the first transfer for which the logs cannot
  be read.
\<close>

lemma notify_outbox_eq: "outbox (notify old ms w) = outbox w @ notifications old ms"
  by (induction old ms w rule: notify.induct) (simp_all add: Let_def)

lemma render_token_txs_step:
  "st \<noteq> Confirmed \<Longrightarrow>
     render_token_txs e tx st lg bn (tt # tts) w ms
       = render_token_txs e tx st lg bn tts
           (w\<lparr>db := update_token_status (transaction_id tx) (transaction_log_index tt) st (db w)\<rparr>)
           (ms @ transfer_messages e tx st False tt)"
  by (auto simp add: Let_def transfer_messages_def)

lemma render_token_txs_step_event:
  "transfer_event e lg tt = Some True \<Longrightarrow>
     render_token_txs e tx Confirmed lg bn (tt # tts) w ms
       = render_token_txs e tx Confirmed lg bn tts
           ((dispatch (Update_token_cache (contract_address tt) (tok_from_address tt)
                         (tok_to_address tt) bn) w)
              \<lparr>db := update_token_status (transaction_id tx) (transaction_log_index tt) Confirmed
                       (db w)\<rparr>)
           (ms @ transfer_messages e tx Confirmed True tt)"
  by (auto simp add: Let_def transfer_messages_def transfer_event_def)

lemma render_token_txs_step_no_event:
  "transfer_event e lg tt = Some False \<Longrightarrow>
     render_token_txs e tx Confirmed lg bn (tt # tts) w ms
       = render_token_txs e tx Confirmed lg bn tts
           (w\<lparr>db := update_token_status (transaction_id tx) (transaction_log_index tt) Error (db w)\<rparr>)
           (ms @ transfer_messages e tx Confirmed False tt)"
  by (auto simp add: Let_def transfer_messages_def transfer_event_def)

lemma render_token_txs_spec:
  assumes "st = Confirmed \<longrightarrow> (\<forall>tt\<in>set tts. logs_readable e lg tt)"
  shows "\<exists>w1. render_token_txs e tx st lg bn tts w ms
               = (Returned, w1,
                  ms @ concat (map (\<lambda>tt. transfer_messages e tx st
                                      (st = Confirmed \<and> transfer_event e lg tt = Some True) tt) tts))
            \<and> outbox w1 = outbox w @ (if st = Confirmed then token_cache_updates e lg bn tts else [])"
  using assms
proof (induction tts arbitrary: w ms)
  case Nil
  then show ?case by (simp add: token_cache_updates_def)
next
  case (Cons tt tts)
  show ?case
  proof (cases "st = Confirmed")
    case False
    from Cons.IH [of "w\<lparr>db := update_token_status (transaction_id tx) (transaction_log_index tt) st (db w)\<rparr>"
                     "ms @ transfer_messages e tx st False tt"] False
    show ?thesis
      by (simp add: render_token_txs_step del: render_token_txs.simps)
  next
    case True
    with Cons.prems obtain b where ev: "transfer_event e lg tt = Some b"
      by (auto simp add: logs_readable_def)
    have rest: "st = Confirmed \<longrightarrow> (\<forall>tt\<in>set tts. logs_readable e lg tt)"
      using Cons.prems by simp
    show ?thesis
    proof (cases b)
      case True
      from Cons.IH [OF rest,
          of "(dispatch (Update_token_cache (contract_address tt) (tok_from_address tt)
                         (tok_to_address tt) bn) w)
              \<lparr>db := update_token_status (transaction_id tx) (transaction_log_index tt) Confirmed
                       (db w)\<rparr>"
             "ms @ transfer_messages e tx Confirmed True tt"]
        True ev \<open>st = Confirmed\<close>
      show ?thesis
        by (simp add: render_token_txs_step_event token_cache_updates_def
                 del: render_token_txs.simps)
    next
      case False
      from Cons.IH [OF rest,
          of "w\<lparr>db := update_token_status (transaction_id tx) (transaction_log_index tt) Error (db w)\<rparr>"
             "ms @ transfer_messages e tx Confirmed False tt"]
        False ev \<open>st = Confirmed\<close>
      show ?thesis
        by (simp add: render_token_txs_step_no_event token_cache_updates_def
                 del: render_token_txs.simps)
    qed
  qed
qed

lemma render_token_txs_raises:
  assumes "\<not> (\<forall>tt\<in>set tts. logs_readable e lg tt)"
  shows "\<exists>w1 ms1. render_token_txs e tx Confirmed lg bn tts w ms = (Raised, w1, ms1)
            \<and> outbox w1 = outbox w @ token_cache_updates e lg bn (takeWhile (logs_readable e lg) tts)"
  using assms
proof (induction tts arbitrary: w ms)
  case Nil
  then show ?case by simp
next
  case (Cons tt tts)
  show ?case
  proof (cases "transfer_event e lg tt")
    case None
    then have "\<not> logs_readable e lg tt" by (simp add: logs_readable_def)
    with None show ?thesis
      by (simp add: transfer_event_def token_cache_updates_def Let_def)
  next
    case (Some b)
    then have r: "logs_readable e lg tt" by (simp add: logs_readable_def)
    with Cons.prems have rest: "\<not> (\<forall>tt\<in>set tts. logs_readable e lg tt)" by simp
    show ?thesis
    proof (cases b)
      case True
      from Cons.IH [OF rest,
          of "(dispatch (Update_token_cache (contract_address tt) (tok_from_address tt)
                         (tok_to_address tt) bn) w)
              \<lparr>db := update_token_status (transaction_id tx) (transaction_log_index tt) Confirmed
                       (db w)\<rparr>"
             "ms @ transfer_messages e tx Confirmed True tt"]
        True Some r
      show ?thesis
        by (simp add: render_token_txs_step_event token_cache_updates_def
                 del: render_token_txs.simps)
    next
      case False
      from Cons.IH [OF rest,
          of "w\<lparr>db := update_token_status (transaction_id tx) (transaction_log_index tt) Error (db w)\<rparr>"
             "ms @ transfer_messages e tx Confirmed False tt"]
        False Some r
      show ?thesis
        by (simp add: render_token_txs_step_no_event token_cache_updates_def
                 del: render_token_txs.simps)
    qed
  qed
qed

lemma render_messages_plain:
  "outbox (snd (render_messages e tx [] st bn w)) =
     outbox w @ notifications (status tx)
       [(from_address tx, to_address tx, st,
         SofaPayment (tx_value tx) (hash tx) st (from_address tx) (to_address tx) (network_id e))]"
  by (simp only: render_messages_def notify_outbox_eq snd_conv if_False simp_thms)

lemma render_messages_unconfirmed_tokens:
  assumes "tts \<noteq> []" and "st \<noteq> Confirmed"
  shows "outbox (snd (render_messages e tx tts st bn w)) =
           outbox w @ notifications (status tx) (concat (map (transfer_messages e tx st False) tts))"
  using assms render_token_txs_spec [of st tts e None tx bn w "[]"]
  by (auto simp add: render_messages_def notify_outbox_eq simp del: render_token_txs.simps)

lemma render_messages_no_receipt:
  assumes "tts \<noteq> []" and "eth_getTransactionReceipt (eth e) (hash tx) = None"
  shows "outbox (snd (render_messages e tx tts Confirmed bn w)) =
           outbox w @ [Update_transaction (transaction_id tx) Confirmed 0]"
  using assms by (simp add: render_messages_def dispatch_def)

lemma render_messages_confirmed_tokens:
  assumes "tts \<noteq> []" and "eth_getTransactionReceipt (eth e) (hash tx) = Some rc"
    and "\<forall>tt\<in>set tts. logs_readable e (logs rc) tt"
  shows "outbox (snd (render_messages e tx tts Confirmed bn w)) =
           outbox w @ token_cache_updates e (logs rc) bn tts
           @ notifications (status tx)
               (concat (map (\<lambda>tt. transfer_messages e tx Confirmed
                                   (transfer_event e (logs rc) tt = Some True) tt) tts))"
  using assms render_token_txs_spec [of Confirmed tts e "logs rc" tx bn w "[]"]
  by (auto simp add: render_messages_def notify_outbox_eq simp del: render_token_txs.simps)

lemma render_messages_raises:
  assumes "tts \<noteq> []" and "eth_getTransactionReceipt (eth e) (hash tx) = Some rc"
    and "\<not> (\<forall>tt\<in>set tts. logs_readable e (logs rc) tt)"
  shows "outbox (snd (render_messages e tx tts Confirmed bn w)) =
           outbox w @ token_cache_updates e (logs rc) bn (takeWhile (logs_readable e (logs rc)) tts)"
  using render_token_txs_raises [OF assms(3), of tx bn w "[]"] assms(1,2)
  by (auto simp add: render_messages_def simp del: render_token_txs.simps)

lemma update_transaction_snd:
  "snd (update_transaction e tid st r w) = snd (update_transaction_body e tid st r w)"
  by (simp add: update_transaction_def split: prod.splits)

lemma update_transaction_renders:
  assumes "fetch_transaction (db w) tid = Some tx"
    and "status tx \<noteq> st" and "status tx \<noteq> Confirmed"
    and "st = Confirmed \<longrightarrow>
           (\<exists>ntx. eth_getTransactionByHash (eth e) (hash tx) = Some ntx \<and> blockNumber ntx = Some b)"
    and "\<not> (st = Unconfirmed \<and> status tx = Queued)"
  shows "\<exists>w0. outbox w0 = outbox w
            \<and> snd (update_transaction e tid st r w)
                = snd (render_messages e tx (fetch_token_txs (db w) tid)
                         (if st = Queued then Unconfirmed else st)
                         (if st = Confirmed then Some b else None) w0)"
proof (cases "st = Confirmed")
  case True
  with assms show ?thesis
    by (intro exI [of _ "w\<lparr>db := update_status_blocknumber tid st b (db w)\<rparr>"])
       (auto simp add: update_transaction_snd update_transaction_body_def render_notification_def
          Let_def)
next
  case False
  with assms show ?thesis
    by (intro exI [of _ "w\<lparr>db := update_status tid st (db w)\<rparr>"])
       (auto simp add: update_transaction_snd update_transaction_body_def render_notification_def
          Let_def)
qed

text \<open>
  C9, amended. Let a status update reach the rendering of the notification: the row
  exists, its stored status is neither the new one nor \<open>confirmed\<close>, and a \<open>confirmed\<close>
  update has the node's block number \<open>b\<close>. An update from \<open>queued\<close> to \<open>unconfirmed\<close>
  dispatches nothing. Every other update renders its messages with the status \<open>rs\<close>,
  which is \<open>unconfirmed\<close> for \<open>queued\<close> and the new status otherwise, and dispatches each
  message by the rule of \<open>notifications\<close>: to its sender always, and to its recipient as
  well (followed by a pass for the recipient's queue) unless the recipient is the
  deployment marker \<open>0x\<close>, which ends the dispatch, or the stored status is \<open>new\<close> and the
  message reports \<open>error\<close>, when the recipient only gets the pass. The messages are: for a
  transaction without token transfers, one Payment between its two addresses; for a
  transaction with token transfers that does not become \<open>confirmed\<close>, no TokenPayment, and
  a Payment for each deposit to or withdrawal from the WETH contract; for one that becomes
  \<open>confirmed\<close>, after a refresh of the token cache for every transfer whose event the
  receipt holds, a TokenPayment for each of those transfers and the Payment of each WETH
  deposit or withdrawal. A \<open>confirmed\<close> update without a receipt is handed back to the
  dispatcher, and one whose logs cannot be read stops at the first such transfer and
  notifies nobody.
\<close>

theorem update_transaction_notifications:
  assumes f: "fetch_transaction (db w) tid = Some tx"
    and n: "status tx \<noteq> st" and c: "status tx \<noteq> Confirmed"
    and b: "st = Confirmed \<longrightarrow>
           (\<exists>ntx. eth_getTransactionByHash (eth e) (hash tx) = Some ntx \<and> blockNumber ntx = Some b)"
  shows
    "let rs = (if st = Queued then Unconfirmed else st);
         tts = fetch_token_txs (db w) tid;
         out = outbox (snd (update_transaction e tid st r w))
     in (st = Unconfirmed \<and> status tx = Queued \<longrightarrow> out = outbox w)
      \<and> (\<not> (st = Unconfirmed \<and> status tx = Queued) \<longrightarrow>
           (tts = [] \<longrightarrow>
              out = outbox w @
                (let m = SofaPayment (tx_value tx) (hash tx) rs (from_address tx) (to_address tx)
                           (network_id e)
                 in Send_notification (from_address tx) m #
                    (if to_address tx = ''0x'' then []
                     else (if status tx = New \<and> rs = Error then []
                           else [Send_notification (to_address tx) m])
                          @ [Process_transaction_queue (to_address tx) 0])))
         \<and> (tts \<noteq> [] \<and> st \<noteq> Confirmed \<longrightarrow>
              out = outbox w @ notifications (status tx)
                                 (concat (map (transfer_messages e tx rs False) tts)))
         \<and> (tts \<noteq> [] \<and> st = Confirmed \<longrightarrow>
              (case eth_getTransactionReceipt (eth e) (hash tx) of
                 None \<Rightarrow> out = outbox w @ [Update_transaction tid Confirmed 0]
               | Some rc \<Rightarrow>
                   if \<forall>tt\<in>set tts. logs_readable e (logs rc) tt
                   then out = outbox w @ token_cache_updates e (logs rc) (Some b) tts
                              @ notifications (status tx)
                                  (concat (map (\<lambda>tt. transfer_messages e tx Confirmed
                                              (transfer_event e (logs rc) tt = Some True) tt) tts))
                   else out = outbox w @ token_cache_updates e (logs rc) (Some b)
                                (takeWhile (logs_readable e (logs rc)) tts))))"
proof -
  let ?rs = "if st = Queued then Unconfirmed else st"
  let ?tts = "fetch_token_txs (db w) tid"
  let ?out = "outbox (snd (update_transaction e tid st r w))"
  have tid: "transaction_id tx = tid"
    using f by (auto simp add: fetch_transaction_def find_Some_iff)
  have quiet: "st = Unconfirmed \<and> status tx = Queued \<longrightarrow> ?out = outbox w"
    using f n c
    by (auto simp add: update_transaction_snd update_transaction_body_def render_notification_def
        Let_def)
  have rest: "?thesis" if loud: "\<not> (st = Unconfirmed \<and> status tx = Queued)"
  proof -
    from update_transaction_renders [OF f n c b loud, of r] obtain w0 where
      o: "outbox w0 = outbox w" and
      s: "snd (update_transaction e tid st r w)
            = snd (render_messages e tx ?tts ?rs (if st = Confirmed then Some b else None) w0)"
      by blast
    have plain: "?tts = [] \<longrightarrow>
        ?out = outbox w @
          (let m = SofaPayment (tx_value tx) (hash tx) ?rs (from_address tx) (to_address tx)
                     (network_id e)
           in Send_notification (from_address tx) m #
              (if to_address tx = ''0x'' then []
               else (if status tx = New \<and> ?rs = Error then []
                     else [Send_notification (to_address tx) m])
                    @ [Process_transaction_queue (to_address tx) 0]))"
      using s o render_messages_plain [of e tx ?rs "if st = Confirmed then Some b else None" w0]
      by (simp add: Let_def)
    have other: "?tts \<noteq> [] \<and> st \<noteq> Confirmed \<longrightarrow>
        ?out = outbox w @ notifications (status tx)
                            (concat (map (transfer_messages e tx ?rs False) ?tts))"
    proof (intro impI, elim conjE)
      assume t: "?tts \<noteq> []" and nc: "st \<noteq> Confirmed"
      then have "?rs \<noteq> Confirmed" by simp
      from render_messages_unconfirmed_tokens [OF t this, of e tx "if st = Confirmed then Some b else None" w0]
        s o
      show "?out = outbox w @ notifications (status tx)
                            (concat (map (transfer_messages e tx ?rs False) ?tts))"
        by simp
    qed
    have conf: "?tts \<noteq> [] \<and> st = Confirmed \<longrightarrow>
        (case eth_getTransactionReceipt (eth e) (hash tx) of
           None \<Rightarrow> ?out = outbox w @ [Update_transaction tid Confirmed 0]
         | Some rc \<Rightarrow>
             if \<forall>tt\<in>set ?tts. logs_readable e (logs rc) tt
             then ?out = outbox w @ token_cache_updates e (logs rc) (Some b) ?tts
                        @ notifications (status tx)
                            (concat (map (\<lambda>tt. transfer_messages e tx Confirmed
                                        (transfer_event e (logs rc) tt = Some True) tt) ?tts))
             else ?out = outbox w @ token_cache_updates e (logs rc) (Some b)
                          (takeWhile (logs_readable e (logs rc)) ?tts))"
    proof (intro impI, elim conjE)
      assume t: "?tts \<noteq> []" and ic: "st = Confirmed"
      from s ic have s': "snd (update_transaction e tid st r w)
            = snd (render_messages e tx ?tts Confirmed (Some b) w0)" by simp
      show "case eth_getTransactionReceipt (eth e) (hash tx) of
           None \<Rightarrow> ?out = outbox w @ [Update_transaction tid Confirmed 0]
         | Some rc \<Rightarrow>
             if \<forall>tt\<in>set ?tts. logs_readable e (logs rc) tt
             then ?out = outbox w @ token_cache_updates e (logs rc) (Some b) ?tts
                        @ notifications (status tx)
                            (concat (map (\<lambda>tt. transfer_messages e tx Confirmed
                                        (transfer_event e (logs rc) tt = Some True) tt) ?tts))
             else ?out = outbox w @ token_cache_updates e (logs rc) (Some b)
                          (takeWhile (logs_readable e (logs rc)) ?tts)"
      proof (cases "eth_getTransactionReceipt (eth e) (hash tx)")
        case None
        from render_messages_no_receipt [OF t None, of "Some b" w0] s' o tid None
        show ?thesis by simp
      next
        case (Some rc)
        show ?thesis
        proof (cases "\<forall>tt\<in>set ?tts. logs_readable e (logs rc) tt")
          case True
          from render_messages_confirmed_tokens [OF t Some True, of "Some b" w0] s' o Some True
          show ?thesis by simp
        next
          case False
          from render_messages_raises [OF t Some False, of "Some b" w0] s' o Some False
          show ?thesis by auto
        qed
      qed
    qed
    from loud plain other conf show ?thesis
      unfolding Let_def by blast
  qed
  show ?thesis
  proof (cases "st = Unconfirmed \<and> status tx = Queued")
    case True
    with quiet show ?thesis unfolding Let_def by blast
  next
    case False
    then show ?thesis by (rule rest)
  qed
qed


theorem update_transaction_notifications_witness:
  "fetch_transaction (db (ex_world [ex_tx 1 ''0xh1'' ''0xb'' 0 1 New] None)) 1
     = Some (ex_tx 1 ''0xh1'' ''0xb'' 0 1 New)
   \<and> status (ex_tx 1 ''0xh1'' ''0xb'' 0 1 New) \<noteq> Error
   \<and> status (ex_tx 1 ''0xh1'' ''0xb'' 0 1 New) \<noteq> Confirmed
   \<and> fetch_token_txs (db (ex_world [ex_tx 1 ''0xh1'' ''0xb'' 0 1 New] None)) 1 = []
   \<and> outbox (snd (update_transaction (ex_env 100 ''0xa'') 1 Error 0
        (ex_world [ex_tx 1 ''0xh1'' ''0xb'' 0 1 New] None)))
       = [Send_notification ''0xa'' (SofaPayment 10 ''0xh1'' Error ''0xa'' ''0xb'' 1),
          Process_transaction_queue ''0xb'' 0]
   \<and> fetch_transaction (db ex_token_world) 1 = Some (ex_tx 1 ''0xh1'' ''0xc'' 0 1 New)
   \<and> eth_getTransactionByHash (eth ex_token_env) ''0xh1'' = Some \<lparr>blockNumber = Some 9\<rparr>
   \<and> map (\<lambda>tt. (contract_address tt, tok_from_address tt, tok_to_address tt, tok_value tt))
        (fetch_token_txs (db ex_token_world) 1) = [(''0xc'', ''0xa'', ''0xb'', 7)]
   \<and> map (transfer_event ex_token_env
             (Some [\<lparr>log_address = ''0xc'', topics = [''T'', ''0xa'', ''0xb'']\<rparr>]))
        (fetch_token_txs (db ex_token_world) 1) = [Some True]
   \<and> outbox (snd (update_transaction ex_token_env 1 Confirmed 0 ex_token_world))
       = [Update_token_cache ''0xc'' ''0xa'' ''0xb'' (Some 9),
          Send_notification ''0xa'' (SofaTokenPayment ''0xh1'' ''0xa'' ''0xb'' Confirmed 7 ''0xc''),
          Send_notification ''0xb'' (SofaTokenPayment ''0xh1'' ''0xa'' ''0xb'' Confirmed 7 ''0xc''),
          Process_transaction_queue ''0xb'' 0]
   \<and> outbox (snd (update_transaction ex_token_env 1 Error 0 ex_token_world)) = []"
proof -
  let ?w = "ex_world [ex_tx 1 ''0xh1'' ''0xb'' 0 1 New] None"
  let ?tx = "ex_tx 1 ''0xh1'' ''0xb'' 0 1 New"
  let ?ttx = "ex_tx 1 ''0xh1'' ''0xc'' 0 1 New"
  have f: "fetch_transaction (db ?w) 1 = Some ?tx"
    by (simp add: fetch_transaction_def ex_world_def ex_tx_def)
  have s1: "status ?tx \<noteq> Error" and s2: "status ?tx \<noteq> Confirmed"
    by (simp_all add: ex_tx_def)
  have c: "Error = Confirmed \<longrightarrow>
      (\<exists>ntx. eth_getTransactionByHash (eth (ex_env 100 ''0xa'')) (hash ?tx) = Some ntx
         \<and> blockNumber ntx = Some 0)"
    by simp
  have t: "fetch_token_txs (db ?w) 1 = []"
    by (simp add: fetch_token_txs_def ex_world_def)
  have plain: "outbox (snd (update_transaction (ex_env 100 ''0xa'') 1 Error 0 ?w))
       = [Send_notification ''0xa'' (SofaPayment 10 ''0xh1'' Error ''0xa'' ''0xb'' 1),
          Process_transaction_queue ''0xb'' 0]"
    using f s1 s2 t update_transaction_notifications [OF f s1 s2 c, of 0]
    by (simp add: Let_def ex_world_def ex_tx_def ex_env_def)
  have tf: "fetch_transaction (db ex_token_world) 1 = Some ?ttx"
    by (simp add: fetch_transaction_def ex_token_world_def ex_tx_def)
  have t1: "status ?ttx \<noteq> Confirmed" and t2: "status ?ttx \<noteq> Error"
    by (simp_all add: ex_tx_def)
  have h: "hash ?ttx = ''0xh1''" by (simp add: ex_tx_def)
  have n: "eth_getTransactionByHash (eth ex_token_env) ''0xh1'' = Some \<lparr>blockNumber = Some 9\<rparr>"
    by (simp add: ex_token_env_def)
  have tc: "Confirmed = Confirmed \<longrightarrow>
      (\<exists>ntx. eth_getTransactionByHash (eth ex_token_env) (hash ?ttx) = Some ntx
         \<and> blockNumber ntx = Some 9)"
    by (simp add: ex_token_env_def)
  have te: "Error = Confirmed \<longrightarrow>
      (\<exists>ntx. eth_getTransactionByHash (eth ex_token_env) (hash ?ttx) = Some ntx
         \<and> blockNumber ntx = Some 9)"
    by simp
  have tts: "fetch_token_txs (db ex_token_world) 1 =
      [\<lparr>tok_transaction_id = 1, transaction_log_index = 0, contract_address = ''0xc'',
        tok_from_address = ''0xa'', tok_to_address = ''0xb'', tok_value = 7, tok_status = New\<rparr>]"
    by (simp add: fetch_token_txs_def ex_token_world_def)
  have rc: "eth_getTransactionReceipt (eth ex_token_env) (hash ?ttx)
      = Some \<lparr>logs = Some [\<lparr>log_address = ''0xc'', topics = [''T'', ''0xa'', ''0xb'']\<rparr>]\<rparr>"
    by (simp add: ex_token_env_def)
  have ev: "transfer_event ex_token_env
      (Some [\<lparr>log_address = ''0xc'', topics = [''T'', ''0xa'', ''0xb'']\<rparr>])
      \<lparr>tok_transaction_id = 1, transaction_log_index = 0, contract_address = ''0xc'',
        tok_from_address = ''0xa'', tok_to_address = ''0xb'', tok_value = 7, tok_status = New\<rparr>
      = Some True"
    by (simp add: transfer_event_def log_matches_def ex_token_env_def ex_env_def)
  have lr: "\<forall>tt\<in>set (fetch_token_txs (db ex_token_world) 1).
      logs_readable ex_token_env
        (Some [\<lparr>log_address = ''0xc'', topics = [''T'', ''0xa'', ''0xb'']\<rparr>]) tt"
    using tts ev by (simp add: logs_readable_def)
  have weth: "WETH_CONTRACT_ADDRESS ex_token_env = ''0xweth''"
    by (simp add: ex_token_env_def ex_env_def)
  have o: "outbox ex_token_world = []" by (simp add: ex_token_world_def)
  have st: "status ?ttx = New" by (simp add: ex_tx_def)
  have "outbox (snd (update_transaction ex_token_env 1 Confirmed 0 ex_token_world))
       = outbox ex_token_world
         @ token_cache_updates ex_token_env
             (Some [\<lparr>log_address = ''0xc'', topics = [''T'', ''0xa'', ''0xb'']\<rparr>]) (Some 9)
             (fetch_token_txs (db ex_token_world) 1)
         @ notifications (status ?ttx)
             (concat (map (\<lambda>tt. transfer_messages ex_token_env ?ttx Confirmed
                 (transfer_event ex_token_env
                    (Some [\<lparr>log_address = ''0xc'', topics = [''T'', ''0xa'', ''0xb'']\<rparr>]) tt
                  = Some True) tt)
               (fetch_token_txs (db ex_token_world) 1)))"
    using update_transaction_notifications [OF tf t1 t1 tc, of 0] rc lr tts
    by (simp add: Let_def)
  then have confirmed: "outbox (snd (update_transaction ex_token_env 1 Confirmed 0 ex_token_world))
       = [Update_token_cache ''0xc'' ''0xa'' ''0xb'' (Some 9),
          Send_notification ''0xa'' (SofaTokenPayment ''0xh1'' ''0xa'' ''0xb'' Confirmed 7 ''0xc''),
          Send_notification ''0xb'' (SofaTokenPayment ''0xh1'' ''0xa'' ''0xb'' Confirmed 7 ''0xc''),
          Process_transaction_queue ''0xb'' 0]"
    using tts ev h weth o st
    by (simp add: token_cache_updates_def transfer_messages_def)
  have "outbox (snd (update_transaction ex_token_env 1 Error 0 ex_token_world))
       = outbox ex_token_world
         @ notifications (status ?ttx)
             (concat (map (transfer_messages ex_token_env ?ttx Error False)
               (fetch_token_txs (db ex_token_world) 1)))"
    using update_transaction_notifications [OF tf t2 t1 te, of 0] tts
    by (simp add: Let_def)
  then have err: "outbox (snd (update_transaction ex_token_env 1 Error 0 ex_token_world)) = []"
    using tts weth o
    by (simp add: transfer_messages_def)
  show ?thesis
    using f s1 s2 t plain tf n tts ev confirmed err
    by simp
qed

section \<open>Marking the candidates queued\<close>

lemma update_transaction_Returned:
  assumes "st \<noteq> Confirmed"
  obtains w1 where "update_transaction e i st r w = (Returned, w1)"
  using assms update_transaction_returned_eq [of e i st r w]
  by (cases "update_transaction e i st r w") auto

lemma queue_new_frame:
  "queue_new e ts w = (out, w1) \<Longrightarrow>
     out = Returned \<and> sent w1 = sent w \<and> last_blocknumber (db w1) = last_blocknumber (db w)
     \<and> gas_station_safelow_gas_price w1 = gas_station_safelow_gas_price w"
proof (induction ts arbitrary: w)
  case Nil
  then show ?case by simp
next
  case (Cons t ts)
  show ?case
  proof (cases "status t = New")
    case True
    obtain w2 where u: "update_transaction e (transaction_id t) Queued 0 w = (Returned, w2)"
      using update_transaction_Returned [of Queued e "transaction_id t" 0 w] by auto
    from Cons.prems True u have "queue_new e ts w2 = (out, w1)" by simp
    from Cons.IH [OF this] update_transaction_frame [OF u] show ?thesis by simp
  next
    case False
    with Cons.prems have "queue_new e ts w = (out, w1)" by simp
    from Cons.IH [OF this] show ?thesis .
  qed
qed

lemma queue_new_keep:
  "status_of (db w) j = Some Queued \<Longrightarrow> status_of (db (snd (queue_new e ts w))) j = Some Queued"
proof (induction ts arbitrary: w)
  case Nil
  then show ?case by simp
next
  case (Cons t ts)
  show ?case
  proof (cases "status t = New")
    case True
    obtain w2 where u: "update_transaction e (transaction_id t) Queued 0 w = (Returned, w2)"
      using update_transaction_Returned [of Queued e "transaction_id t" 0 w] by auto
    have "status_of (db w2) j = Some Queued"
      using update_transaction_status_keep [OF u _ Cons.prems] by simp
    from Cons.IH [OF this] True u show ?thesis by simp
  next
    case False
    with Cons.IH [OF Cons.prems] show ?thesis by simp
  qed
qed

lemma queue_new_queued:
  assumes "\<forall>t\<in>set ts. (status t = New \<or> status t = Queued)
              \<and> (status_of (db w) (transaction_id t) = Some (status t)
                 \<or> status_of (db w) (transaction_id t) = Some Queued)"
  shows "\<forall>t\<in>set ts. status_of (db (snd (queue_new e ts w))) (transaction_id t) = Some Queued"
  using assms
proof (induction ts arbitrary: w)
  case Nil
  then show ?case by simp
next
  case (Cons t ts)
  show ?case
  proof (cases "status t = New")
    case True
    obtain w2 where u: "update_transaction e (transaction_id t) Queued 0 w = (Returned, w2)"
      using update_transaction_Returned [of Queued e "transaction_id t" 0 w] by auto
    have old: "\<exists>old. status_of (db w) (transaction_id t) = Some old \<and> old \<noteq> Confirmed"
      using Cons.prems True by auto
    then have h: "status_of (db w2) (transaction_id t) = Some Queued"
      using update_transaction_status_set [OF u] by auto
    have inv: "\<forall>x\<in>set ts. (status x = New \<or> status x = Queued)
              \<and> (status_of (db w2) (transaction_id x) = Some (status x)
                 \<or> status_of (db w2) (transaction_id x) = Some Queued)"
    proof
      fix x assume x: "x \<in> set ts"
      show "(status x = New \<or> status x = Queued)
              \<and> (status_of (db w2) (transaction_id x) = Some (status x)
                 \<or> status_of (db w2) (transaction_id x) = Some Queued)"
      proof (cases "transaction_id x = transaction_id t")
        case True
        with h Cons.prems x show ?thesis by simp
      next
        case False
        with update_transaction_status_other [OF u False] Cons.prems x show ?thesis by simp
      qed
    qed
    from Cons.IH [OF inv] queue_new_keep [OF h, of e ts] True u show ?thesis by simp
  next
    case False
    then have h: "status_of (db w) (transaction_id t) = Some Queued"
      using Cons.prems by auto
    have inv: "\<forall>x\<in>set ts. (status x = New \<or> status x = Queued)
              \<and> (status_of (db w) (transaction_id x) = Some (status x)
                 \<or> status_of (db w) (transaction_id x) = Some Queued)"
      using Cons.prems by simp
    from Cons.IH [OF inv] queue_new_keep [OF h, of e ts] False show ?thesis by simp
  qed
qed

lemma as_fetched_queued:
  assumes "as_fetched (db w) ts" and "transactions (db w0) = transactions (db w)"
  shows "\<forall>t\<in>set ts. status_of (db (snd (queue_new e ts w0))) (transaction_id t) = Some Queued"
proof (rule queue_new_queued)
  show "\<forall>t\<in>set ts. (status t = New \<or> status t = Queued)
              \<and> (status_of (db w0) (transaction_id t) = Some (status t)
                 \<or> status_of (db w0) (transaction_id t) = Some Queued)"
    using assms status_of_cong [OF assms(2)] by (auto simp: as_fetched_def list_all_iff)
qed

section \<open>The nonce check and the cascade of errors\<close>

lemma fetch_old_tx_Some:
  "fetch_old_tx d a n h = Some old \<Longrightarrow>
     from_address old = a \<and> nonce old = n \<and> hash old \<noteq> h \<and> old \<in> set (transactions d)"
  by (auto simp: fetch_old_tx_def find_Some_iff)

lemma check_nonce_Inr:
  "check_nonce e a nn ps t rest = Inr (ps1, rest1) \<Longrightarrow> ps1 = ps \<and> rest1 = rest"
  by (auto simp: check_nonce_def split: if_splits option.splits prod.splits outcome.splits
      dest: fetch_old_tx_Some)

lemma passes_nonce_check_Inr:
  "passes_nonce_check e a nn ps t rest \<Longrightarrow> check_nonce e a nn ps t rest = Inr (ps, rest)"
  using check_nonce_Inr [of e a nn ps t rest]
  by (cases "check_nonce e a nn ps t rest") (auto simp: passes_nonce_check_def)

lemma nonce_match_passes:
  "next_nonce ps = nonce t \<or> nn = nonce t \<Longrightarrow> passes_nonce_check e a nn ps t rest"
  by (auto simp: passes_nonce_check_def check_nonce_def)

lemma error_continue_Continue:
  obtains w1 where "update_transaction e (transaction_id t) Error 0 (pw ps) = (Returned, w1)"
    and "error_continue e t ps rest = Continue (add_address (to_address t) (ps\<lparr>pw := w1\<rparr>)) rest"
proof -
  obtain w1 where u: "update_transaction e (transaction_id t) Error 0 (pw ps) = (Returned, w1)"
    using update_transaction_Returned [of Error e "transaction_id t" 0 "pw ps"] by auto
  then have "error_continue e t ps rest = Continue (add_address (to_address t) (ps\<lparr>pw := w1\<rparr>)) rest"
    by (simp add: error_continue_def)
  with u that show thesis by blast
qed

lemma add_address_simps [simp]:
  "pw (add_address x ps) = pw ps"
  "previous_error (add_address x ps) = previous_error ps"
  "balance (add_address x ps) = balance ps"
  "next_nonce (add_address x ps) = next_nonce ps"
  by (simp_all add: add_address_def)

lemma cascade_error:
  assumes "previous_error ps"
    and "\<forall>t\<in>set ts. open_row (db (pw ps)) t"
  shows "\<exists>ps1. process_loop e a nn lb ps ts = Break ps1 []
           \<and> sent (pw ps1) = sent (pw ps)
           \<and> (\<forall>t\<in>set ts. status_of (db (pw ps1)) (transaction_id t) = Some Error)
           \<and> (\<forall>j. status_of (db (pw ps)) j = Some Error
                  \<longrightarrow> status_of (db (pw ps1)) j = Some Error)"
  using assms
proof (induction ts arbitrary: ps)
  case Nil
  then show ?case by simp
next
  case (Cons t ts)
  obtain w1 where u: "update_transaction e (transaction_id t) Error 0 (pw ps) = (Returned, w1)"
    and ec: "error_continue e t ps ts = Continue (add_address (to_address t) (ps\<lparr>pw := w1\<rparr>)) ts"
    by (rule error_continue_Continue)
  let ?ps2 = "add_address (to_address t) (ps\<lparr>pw := w1\<rparr>)"
  have pc: "process_candidate e a nn lb ps t ts = Continue ?ps2 ts"
    using Cons.prems(1) ec by (simp add: process_candidate_def)
  have head: "status_of (db w1) (transaction_id t) = Some Error"
    using Cons.prems(2) update_transaction_status_set [OF u] by (auto simp: open_row_def)
  have keep: "\<And>j. status_of (db (pw ps)) j = Some Error \<Longrightarrow> status_of (db w1) j = Some Error"
    using update_transaction_status_keep [OF u] by simp
  have inv: "\<forall>x\<in>set ts. open_row (db (pw ?ps2)) x"
  proof
    fix x assume x: "x \<in> set ts"
    show "open_row (db (pw ?ps2)) x"
    proof (cases "transaction_id x = transaction_id t")
      case True
      with head show ?thesis by (simp add: open_row_def)
    next
      case False
      with update_transaction_status_other [OF u False] Cons.prems(2) x show ?thesis
        by (simp add: open_row_def)
    qed
  qed
  have pe: "previous_error ?ps2" using Cons.prems(1) by simp
  from Cons.IH [OF pe inv] obtain ps1 where
    l: "process_loop e a nn lb ?ps2 ts = Break ps1 []"
    and s: "sent (pw ps1) = sent (pw ?ps2)"
    and er: "\<forall>t\<in>set ts. status_of (db (pw ps1)) (transaction_id t) = Some Error"
    and k: "\<forall>j. status_of (db (pw ?ps2)) j = Some Error \<longrightarrow> status_of (db (pw ps1)) j = Some Error"
    by blast
  have "process_loop e a nn lb ps (t # ts) = Break ps1 []"
    using pc l by simp
  moreover have "sent (pw ps1) = sent (pw ps)"
    using s update_transaction_frame [OF u] by simp
  moreover have "\<forall>t'\<in>set (t # ts). status_of (db (pw ps1)) (transaction_id t') = Some Error"
    using er k head by simp
  moreover have "\<forall>j. status_of (db (pw ps)) j = Some Error \<longrightarrow> status_of (db (pw ps1)) j = Some Error"
    using k keep by simp
  ultimately show ?case by blast
qed

lemma as_fetched_open: "as_fetched d ts \<Longrightarrow> \<forall>t\<in>set ts. open_row d t"
  by (auto simp: as_fetched_def list_all_iff open_row_def)

lemma fail_and_cascade:
  assumes "process_candidate e a nn lb ps t rest
             = error_continue e t (ps\<lparr>previous_error := True\<rparr>) rest"
    and "as_fetched (db (pw ps)) (t # rest)"
  shows "\<exists>ps1. process_loop e a nn lb ps (t # rest) = Break ps1 []
           \<and> sent (pw ps1) = sent (pw ps)
           \<and> (\<forall>t'\<in>set (t # rest). status_of (db (pw ps1)) (transaction_id t') = Some Error)"
proof -
  let ?ps0 = "ps\<lparr>previous_error := True\<rparr>"
  have o: "\<forall>x\<in>set (t # rest). open_row (db (pw ?ps0)) x"
    using as_fetched_open [OF assms(2)] by simp
  have pc: "process_candidate e a nn lb ?ps0 t rest = error_continue e t ?ps0 rest"
    by (simp add: process_candidate_def)
  have "process_loop e a nn lb ps (t # rest) = process_loop e a nn lb ?ps0 (t # rest)"
    using assms(1) pc by simp
  with cascade_error [of ?ps0 "t # rest" e a nn lb, OF _ o] show ?thesis by auto
qed

section \<open>A candidate the balance does not cover\<close>

lemma any_above_Some: "\<exists>b. any_above (Some l) ts = Some b"
  by (induction ts) (auto split: option.splits)

lemma queue_new_Returned:
  obtains w1 where "queue_new e ts w = (Returned, w1)"
  using queue_new_frame [of e ts w] by (cases "queue_new e ts w") auto

text \<open>
  A candidate that reaches the balance check (no earlier candidate of the pass failed and
  the nonce check let it through) with a cost above the working balance, the candidates
  being rows as they were fetched. If the balance and the funds on their way to the
  address are together below the cost, the candidate and every later candidate of the
  pass end as \<open>error\<close> and nothing is sent. Otherwise, if the last block is known, the
  body of the loop leaves with \<open>break\<close> at this candidate, every candidate ends as
  \<open>queued\<close>, and nothing is sent.
\<close>

lemma insufficient_balance_errors_or_waits:
  assumes "\<not> previous_error ps"
    and "passes_nonce_check e a network_nonce ps t rest"
    and "balance ps < cost t"
    and "as_fetched (db (pw ps)) (t # rest)"
  shows "(balance ps + pending_received (fetch_transactions_in (db (pw ps)) a (or_zero lb)) < cost t
          \<longrightarrow> (\<exists>ps1. process_loop e a network_nonce lb ps (t # rest) = Break ps1 []
                 \<and> (\<forall>x\<in>set (t # rest). status_of (db (pw ps1)) (transaction_id x) = Some Error)
                 \<and> sent (pw ps1) = sent (pw ps)))
       \<and> (\<not> balance ps + pending_received (fetch_transactions_in (db (pw ps)) a (or_zero lb)) < cost t
          \<and> lb \<noteq> None
          \<longrightarrow> (\<exists>ps1. process_candidate e a network_nonce lb ps t rest = Break ps1 []
                 \<and> process_loop e a network_nonce lb ps (t # rest) = Break ps1 []
                 \<and> (\<forall>x\<in>set (t # rest). status_of (db (pw ps1)) (transaction_id x) = Some Queued)
                 \<and> sent (pw ps1) = sent (pw ps)))"
proof (intro conjI impI)
  note cn = passes_nonce_check_Inr [OF assms(2)]
  let ?received = "pending_received (fetch_transactions_in (db (pw ps)) a (or_zero lb))"
  {
    assume low: "balance ps + ?received < cost t"
    have "process_candidate e a network_nonce lb ps t rest
            = error_continue e t (ps\<lparr>previous_error := True\<rparr>) rest"
      using assms(1,3) cn low by (simp add: process_candidate_def check_balance_def)
    from fail_and_cascade [OF this assms(4)]
    show "\<exists>ps1. process_loop e a network_nonce lb ps (t # rest) = Break ps1 []
              \<and> (\<forall>x\<in>set (t # rest). status_of (db (pw ps1)) (transaction_id x) = Some Error)
              \<and> sent (pw ps1) = sent (pw ps)"
      by blast
  }
  {
    assume "\<not> balance ps + ?received < cost t \<and> lb \<noteq> None"
    then have enough: "\<not> balance ps + ?received < cost t" and lb: "\<exists>l. lb = Some l"
      by auto
    obtain b where b: "any_above lb (fetch_transactions_in (db (pw ps)) a (or_zero lb)) = Some b"
      using any_above_Some lb by blast
    define ps0 where "ps0 = (if b then add_address a ps else ps)"
    obtain w1 where q: "queue_new e (t # rest) (pw ps0) = (Returned, w1)"
      by (rule queue_new_Returned)
    have pc: "process_candidate e a network_nonce lb ps t rest = Break (ps0\<lparr>pw := w1\<rparr>) []"
      using assms(1,3) cn enough b q
      by (simp add: process_candidate_def check_balance_def ps0_def Let_def
          del: queue_new.simps)
    have w: "pw ps0 = pw ps" by (simp add: ps0_def)
    have "\<forall>x\<in>set (t # rest). status_of (db (snd (queue_new e (t # rest) (pw ps0)))) (transaction_id x)
            = Some Queued"
      using as_fetched_queued [OF assms(4), of "pw ps0" e] w by simp
    then have st: "\<forall>x\<in>set (t # rest). status_of (db w1) (transaction_id x) = Some Queued"
      using q by simp
    have "sent w1 = sent (pw ps)" using queue_new_frame [OF q] w by simp
    with pc st
    show "\<exists>ps1. process_candidate e a network_nonce lb ps t rest = Break ps1 []
              \<and> process_loop e a network_nonce lb ps (t # rest) = Break ps1 []
              \<and> (\<forall>x\<in>set (t # rest). status_of (db (pw ps1)) (transaction_id x) = Some Queued)
              \<and> sent (pw ps1) = sent (pw ps)"
      by (intro exI [of _ "ps0\<lparr>pw := w1\<rparr>"]) simp
  }
qed

lemma as_fetched_ex_queue:
  "as_fetched (db (ex_world (ex_queue @ others) floor)) ex_queue"
  by (simp add: as_fetched_def ex_queue_def ex_world_def ex_tx_def status_of_def
      fetch_transaction_def)

lemma insufficient_balance_errors_or_waits_example:
  "(\<exists>ps1. process_loop (ex_env 5 ''0xa'') ''0xa'' 0 (Some 5)
             (ex_pass_state (ex_world ex_queue None) 5) ex_queue = Break ps1 []
        \<and> (\<forall>x\<in>set ex_queue. status_of (db (pw ps1)) (transaction_id x) = Some Error)
        \<and> sent (pw ps1) = [])
   \<and> (\<exists>ps1. process_loop (ex_env 5 ''0xa'') ''0xa'' 0 (Some 5)
             (ex_pass_state (ex_world (ex_queue @ [ex_inbound]) None) 5) ex_queue = Break ps1 []
        \<and> (\<forall>x\<in>set ex_queue. status_of (db (pw ps1)) (transaction_id x) = Some Queued)
        \<and> sent (pw ps1) = [])"
proof -
  let ?e = "ex_env 5 ''0xa''"
  let ?t = "ex_tx 1 ''0xh1'' ''0xb'' 0 1 New"
  let ?rest = "[ex_tx 2 ''0xh2'' ''0xb'' 1 1 New]"
  have q: "ex_queue = ?t # ?rest" by (simp add: ex_queue_def)
  have c: "cost ?t = 11" by (simp add: cost_def ex_tx_def)
  {
    fix others
    let ?ps = "ex_pass_state (ex_world (ex_queue @ others) None) 5"
    have h1: "\<not> previous_error ?ps" by (simp add: ex_pass_state_def)
    have h2: "passes_nonce_check ?e ''0xa'' 0 ?ps ?t ?rest"
      by (rule nonce_match_passes) (simp add: ex_pass_state_def ex_tx_def)
    have h3: "balance ?ps < cost ?t" using c by (simp add: ex_pass_state_def)
    have h4: "as_fetched (db (pw ?ps)) (?t # ?rest)"
      using as_fetched_ex_queue [of others None] by (simp add: q ex_pass_state_def)
    note insufficient_balance_errors_or_waits [OF h1 h2 h3 h4, of "Some 5"]
  }
  note th = this
  have r0: "pending_received (fetch_transactions_in
              (db (pw (ex_pass_state (ex_world (ex_queue @ []) None) 5))) ''0xa'' (or_zero (Some 5))) = 0"
    by (simp add: pending_received_def fetch_transactions_in_def ex_pass_state_def ex_world_def
        ex_queue_def ex_tx_def)
  have r1: "pending_received (fetch_transactions_in
              (db (pw (ex_pass_state (ex_world (ex_queue @ [ex_inbound]) None) 5))) ''0xa''
                (or_zero (Some 5))) = 10"
    by (simp add: pending_received_def fetch_transactions_in_def ex_pass_state_def ex_world_def
        ex_queue_def ex_tx_def ex_inbound_def)
  show ?thesis
    using th [of "[]"] th [of "[ex_inbound]"] c
    unfolding r0 r1
    by (auto simp: q ex_pass_state_def ex_world_def simp del: process_loop.simps)
qed

section \<open>A candidate priced under the floor\<close>

lemma notify_outbox: "x \<in> set (outbox w) \<Longrightarrow> x \<in> set (outbox (notify old ms w))"
  by (induction old ms w rule: notify.induct) (auto simp: Let_def)

lemma render_token_txs_outbox:
  "render_token_txs e tx st lg bn tts w ms = (out, w1, ms1) \<Longrightarrow> x \<in> set (outbox w)
     \<Longrightarrow> x \<in> set (outbox w1)"
proof (induction tts arbitrary: w ms)
  case Nil
  then show ?case by simp
next
  case (Cons tt tts)
  then show ?case
    by (auto simp: Let_def split: if_splits option.splits bool.splits)
qed

lemma render_messages_outbox:
  "render_messages e tx tts st bn w = (out, w1) \<Longrightarrow> x \<in> set (outbox w) \<Longrightarrow> x \<in> set (outbox w1)"
  by (auto simp: render_messages_def notify_outbox simp del: notify.simps render_token_txs.simps
      split: if_splits option.splits prod.splits outcome.splits
      dest: render_token_txs_outbox)

lemma render_notification_outbox:
  "render_notification e tx tts st bn w = (out, w1) \<Longrightarrow> x \<in> set (outbox w)
     \<Longrightarrow> x \<in> set (outbox w1)"
  by (auto simp: render_notification_def split: if_splits dest: render_messages_outbox)

lemma update_transaction_body_outbox:
  "update_transaction_body e i st r w = (out, w1) \<Longrightarrow> x \<in> set (outbox w) \<Longrightarrow> x \<in> set (outbox w1)"
  by (auto simp: update_transaction_body_def Let_def split: if_splits option.splits
      dest: render_notification_outbox)

lemma update_transaction_outbox:
  "update_transaction e i st r w = (out, w1) \<Longrightarrow> x \<in> set (outbox w) \<Longrightarrow> x \<in> set (outbox w1)"
  by (auto simp: update_transaction_def split: prod.splits dest: update_transaction_body_outbox)

lemma queue_new_outbox:
  "queue_new e ts w = (out, w1) \<Longrightarrow> x \<in> set (outbox w) \<Longrightarrow> x \<in> set (outbox w1)"
proof (induction ts arbitrary: w)
  case Nil
  then show ?case by simp
next
  case (Cons t ts)
  then show ?case
    by (auto split: if_splits prod.splits outcome.splits dest: update_transaction_outbox)
qed

lemmas pass_defs =
  process_transaction_queue_pass_def fetch_transactions_out_def fetch_unconfirmed_txs_def
  fetch_transactions_in_def fetch_old_tx_def pending_received_def or_zero_def or_latest_def
  above_def process_candidate_def check_nonce_def check_balance_def send_candidate_def
  error_continue_def add_address_def finish_pass_def gas_price_too_low_def cost_def
  create_transaction_def starts_with_def
  update_transaction_def update_transaction_body_def render_notification_def
  render_messages_def fetch_token_txs_def update_status_def update_status_blocknumber_def
  fetch_transaction_def status_of_def dispatch_def Let_def
  ex_world_def ex_queue_def ex_tx_def ex_env_def ex_node_def ex_inbound_def

text \<open>
  C6, as the code has it. The gas-price floor is only read once the balance covers the
  candidate (line 201 comes before line 204). Here the floor is 100, both candidates are
  priced at 1 and cost 11, the balance is 5 and nothing is on its way to the sender: the
  pass sets both rows to \<open>error\<close> and asks for no retry in 60 seconds.
\<close>

theorem low_gas_price_counterexample:
  "map gas_price ex_queue = [1, 1]
   \<and> gas_station_safelow_gas_price (ex_world ex_queue (Some 100)) = Some 100
   \<and> map status (transactions (db (snd (process_transaction_queue_pass (ex_env 5 ''0xa'') ''0xa''
        (ex_world ex_queue (Some 100)))))) = [Error, Error]
   \<and> outbox (snd (process_transaction_queue_pass (ex_env 5 ''0xa'') ''0xa''
        (ex_world ex_queue (Some 100)))) =
       [Send_notification ''0xa'' (SofaPayment 10 ''0xh1'' Error ''0xa'' ''0xb'' 1),
        Process_transaction_queue ''0xb'' 0,
        Send_notification ''0xa'' (SofaPayment 10 ''0xh2'' Error ''0xa'' ''0xb'' 1),
        Process_transaction_queue ''0xb'' 0,
        Process_transaction_queue ''0xb'' 0]"
  by (simp add: pass_defs)

text \<open>
  C6, amended. Let a candidate reach the balance check (no earlier candidate of the pass
  failed and the nonce check let it through) with a balance that covers its cost, and let
  its gas price be strictly below the cached safe-low floor. Then the processor asks for
  a pass of the address in 60 seconds, every candidate still in hand ends as \<open>queued\<close>
  (the \<open>new\<close> ones are marked), nothing is sent, and the loop is left with \<open>break\<close>.
\<close>

theorem gas_price_below_floor_defers:
  assumes "\<not> previous_error ps"
    and "passes_nonce_check e a network_nonce ps t rest"
    and "cost t \<le> balance ps"
    and "gas_station_safelow_gas_price (pw ps) = Some floor"
    and "gas_price t < floor" and "0 \<le> gas_price t"
    and "as_fetched (db (pw ps)) (t # rest)"
  shows "\<exists>ps1. process_candidate e a network_nonce lb ps t rest = Break ps1 []
           \<and> process_loop e a network_nonce lb ps (t # rest) = Break ps1 []
           \<and> (\<forall>x\<in>set (t # rest). status_of (db (pw ps1)) (transaction_id x) = Some Queued)
           \<and> sent (pw ps1) = sent (pw ps)
           \<and> Process_transaction_queue a 60 \<in> set (outbox (pw ps1))"
proof -
  note cn = passes_nonce_check_Inr [OF assms(2)]
  let ?w0 = "dispatch (Process_transaction_queue a 60) (pw ps)"
  obtain w1 where q: "queue_new e (t # rest) ?w0 = (Returned, w1)"
    by (rule queue_new_Returned)
  have low: "gas_price_too_low (pw ps) t"
    using assms(4,5,6) by (simp add: gas_price_too_low_def)
  have pc: "process_candidate e a network_nonce lb ps t rest = Break (ps\<lparr>pw := w1\<rparr>) []"
    using assms(1,3) cn low q
    by (simp add: process_candidate_def check_balance_def del: queue_new.simps)
  have "\<forall>x\<in>set (t # rest). status_of (db (snd (queue_new e (t # rest) ?w0))) (transaction_id x)
          = Some Queued"
    using as_fetched_queued [OF assms(7), of ?w0 e] by simp
  then have st: "\<forall>x\<in>set (t # rest). status_of (db w1) (transaction_id x) = Some Queued"
    using q by simp
  have s: "sent w1 = sent (pw ps)" using queue_new_frame [OF q] by simp
  have o: "Process_transaction_queue a 60 \<in> set (outbox w1)"
    using queue_new_outbox [OF q, of "Process_transaction_queue a 60"] by simp
  from pc st s o show ?thesis
    by (intro exI [of _ "ps\<lparr>pw := w1\<rparr>"]) simp
qed

theorem gas_price_below_floor_defers_witness:
  "\<exists>ps1. process_loop (ex_env 50 ''0xa'') ''0xa'' 0 (Some 5)
           (ex_pass_state (ex_world ex_queue (Some 100)) 50) ex_queue = Break ps1 []
      \<and> (\<forall>x\<in>set ex_queue. status_of (db (pw ps1)) (transaction_id x) = Some Queued)
      \<and> sent (pw ps1) = []
      \<and> Process_transaction_queue ''0xa'' 60 \<in> set (outbox (pw ps1))"
proof -
  let ?e = "ex_env 50 ''0xa''"
  let ?t = "ex_tx 1 ''0xh1'' ''0xb'' 0 1 New"
  let ?rest = "[ex_tx 2 ''0xh2'' ''0xb'' 1 1 New]"
  let ?ps = "ex_pass_state (ex_world (ex_queue @ []) (Some 100)) 50"
  have q: "ex_queue = ?t # ?rest" by (simp add: ex_queue_def)
  have h1: "\<not> previous_error ?ps" by (simp add: ex_pass_state_def)
  have h2: "passes_nonce_check ?e ''0xa'' 0 ?ps ?t ?rest"
    by (rule nonce_match_passes) (simp add: ex_pass_state_def ex_tx_def)
  have h3: "cost ?t \<le> balance ?ps" by (simp add: cost_def ex_tx_def ex_pass_state_def)
  have h4: "gas_station_safelow_gas_price (pw ?ps) = Some 100"
    by (simp add: ex_pass_state_def ex_world_def)
  have h5: "gas_price ?t < 100" and h6: "0 \<le> gas_price ?t" by (simp_all add: ex_tx_def)
  have h7: "as_fetched (db (pw ?ps)) (?t # ?rest)"
    using as_fetched_ex_queue [of "[]" "Some 100"] by (simp add: q ex_pass_state_def)
  show ?thesis
    using gas_price_below_floor_defers [OF h1 h2 h3 h4 h5 h6 h7, of "Some 5"]
    by (auto simp: q ex_pass_state_def ex_world_def simp del: process_loop.simps)
qed

section \<open>Waiting for funds while the last block is unknown\<close>

text \<open>
  C7 fails in the code when the table \<open>last_blocknumber\<close> is empty. Lines 92, 102, 104
  and 274 default the value read from it (\<open>last_blocknumber or 0\<close>, \<open>or "latest"\<close>), but
  line 286 compares \<open>t['blocknumber'] > last_blocknumber\<close> with the value as read, and an
  integer against \<open>None\<close> raises \<open>TypeError\<close>. Here the balance is 5, the first candidate
  costs 11 and a confirmed payment of 10 in block 7 is counted as on its way, so the
  balance and the pending funds cover the cost and the claim has the \<open>new\<close> rows marked
  \<open>queued\<close>. With the table empty the pass raises instead and leaves every row and the
  dispatcher as they were; with the last block 5 the same queue is marked \<open>queued\<close>, and
  with the last block 7, which the payment is not above, both rows are set to \<open>error\<close>.
\<close>

theorem missing_last_block_raises:
  "map (\<lambda>t. (transaction_id t, status t, cost t)) ex_queue = [(1, New, 11), (2, New, 11)]
   \<and> eth_getBalance (eth (ex_env 5 ''0xa'')) ''0xa'' None = 5
   \<and> pending_received
        (fetch_transactions_in (db (ex_world_at None (ex_queue @ [ex_confirmed_inbound]))) ''0xa'' 0)
       = 10
   \<and> process_transaction_queue_pass (ex_env 5 ''0xa'') ''0xa''
        (ex_world_at None (ex_queue @ [ex_confirmed_inbound]))
       = (Raised, ex_world_at None (ex_queue @ [ex_confirmed_inbound]))
   \<and> fst (process_transaction_queue_pass (ex_env 5 ''0xa'') ''0xa''
        (ex_world_at (Some 5) (ex_queue @ [ex_confirmed_inbound]))) = Returned
   \<and> map (\<lambda>t. (transaction_id t, status t))
        (transactions (db (snd (process_transaction_queue_pass (ex_env 5 ''0xa'') ''0xa''
           (ex_world_at (Some 5) (ex_queue @ [ex_confirmed_inbound]))))))
       = [(1, Queued), (2, Queued), (3, Confirmed)]
   \<and> pending_received
        (fetch_transactions_in (db (ex_world_at (Some 7) (ex_queue @ [ex_confirmed_inbound]))) ''0xa'' 7)
       = 0
   \<and> map (\<lambda>t. (transaction_id t, status t))
        (transactions (db (snd (process_transaction_queue_pass (ex_env 5 ''0xa'') ''0xa''
           (ex_world_at (Some 7) (ex_queue @ [ex_confirmed_inbound]))))))
       = [(1, Error), (2, Error), (3, Confirmed)]"
  by (simp add: pass_defs ex_world_at_def ex_confirmed_inbound_def)

section \<open>What a pass sends\<close>

lemma error_continue_sent:
  "sent (pw (step_state (error_continue e t ps rest))) = sent (pw ps)"
proof -
  obtain w1 where u: "update_transaction e (transaction_id t) Error 0 (pw ps) = (Returned, w1)"
    and ec: "error_continue e t ps rest = Continue (add_address (to_address t) (ps\<lparr>pw := w1\<rparr>)) rest"
    by (rule error_continue_Continue)
  show ?thesis using ec update_transaction_frame [OF u] by simp
qed

lemma check_nonce_sent:
  "check_nonce e a nn ps t rest = Inl stp \<Longrightarrow> sent (pw (step_state stp)) = sent (pw ps)"
  using error_continue_sent [of e t "ps\<lparr>previous_error := True\<rparr>" rest]
  by (auto simp: check_nonce_def split: if_splits option.splits prod.splits outcome.splits
      dest!: update_transaction_frame)

lemma send_candidate_sent:
  "sent (pw (step_state (send_candidate e ps t rest))) = sent (pw ps) @ [create_transaction t]"
  using error_continue_sent
    [of e t "ps\<lparr>pw := (pw ps)\<lparr>sent := sent (pw ps) @ [create_transaction t]\<rparr>,
               previous_error := True\<rparr>" rest]
  by (auto simp: send_candidate_def Let_def
      split: sum.splits option.splits prod.splits outcome.splits if_splits
      dest!: update_transaction_frame)

lemma check_balance_sent:
  "sent (pw (step_state (check_balance e a lb ps t rest))) = sent (pw ps)
   \<or> (sent (pw (step_state (check_balance e a lb ps t rest))) = sent (pw ps) @ [create_transaction t]
      \<and> recover_sender e (create_transaction t) = a)"
proof -
  obtain w1 where q1: "queue_new e (t # rest) (dispatch (Process_transaction_queue a 60) (pw ps))
      = (Returned, w1)"
    by (rule queue_new_Returned)
  obtain w2 where q2: "queue_new e (t # rest) (pw ps) = (Returned, w2)"
    by (rule queue_new_Returned)
  show ?thesis
    using queue_new_frame [OF q1] queue_new_frame [OF q2] q1 q2
      error_continue_sent [of e t "ps\<lparr>previous_error := True\<rparr>" rest]
      send_candidate_sent [of e ps t rest]
    by (auto simp: check_balance_def Let_def simp del: queue_new.simps
        split: option.splits)
qed

lemma process_candidate_sent:
  "sent (pw (step_state (process_candidate e a nn lb ps t rest))) = sent (pw ps)
   \<or> (sent (pw (step_state (process_candidate e a nn lb ps t rest)))
         = sent (pw ps) @ [create_transaction t]
      \<and> recover_sender e (create_transaction t) = a)"
proof (cases "previous_error ps")
  case True
  then show ?thesis using error_continue_sent [of e t ps rest] by (simp add: process_candidate_def)
next
  case False
  show ?thesis
  proof (cases "check_nonce e a nn ps t rest")
    case (Inl stp)
    with False check_nonce_sent [OF Inl] show ?thesis by (simp add: process_candidate_def)
  next
    case (Inr x)
    then have "check_nonce e a nn ps t rest = Inr (ps, rest)"
      using check_nonce_Inr [of e a nn ps t rest "fst x" "snd x"] by (cases x) auto
    with False check_balance_sent [of e a lb ps t rest] show ?thesis
      by (simp add: process_candidate_def)
  qed
qed

lemma check_nonce_set:
  "check_nonce e a nn ps t rest = Inl (Continue ps1 rest1) \<Longrightarrow> set rest1 \<subseteq> set rest"
  by (auto simp: check_nonce_def split: if_splits option.splits prod.splits outcome.splits
      dest: error_continue_rest)

lemma process_candidate_set:
  "process_candidate e a nn lb ps t rest = Continue ps1 rest1 \<Longrightarrow> set rest1 \<subseteq> set rest"
  using check_nonce_Inr [of e a nn ps t rest]
  by (auto simp: process_candidate_def split: if_splits sum.splits prod.splits
      dest: error_continue_rest check_nonce_set check_balance_rest)

lemma process_loop_sent:
  "\<exists>new. sent (pw (step_state (process_loop e a nn lb ps ts))) = sent (pw ps) @ new
      \<and> (\<forall>x\<in>set new. recover_sender e x = a \<and> x \<in> create_transaction ` set ts)"
proof (induction e a nn lb ps ts rule: process_loop.induct)
  case (1 e a nn lb ps)
  then show ?case by simp
next
  case (2 e a nn lb ps t rest)
  show ?case
  proof (cases "process_candidate e a nn lb ps t rest")
    case (Continue ps1 rest1)
    have r: "create_transaction ` set rest1 \<subseteq> create_transaction ` set rest"
      using process_candidate_set [OF Continue] by blast
    from "2.IH" [OF Continue] obtain new where
      n: "sent (pw (step_state (process_loop e a nn lb ps1 rest1))) = sent (pw ps1) @ new"
      "\<forall>x\<in>set new. recover_sender e x = a \<and> x \<in> create_transaction ` set rest1"
      by blast
    have l: "process_loop e a nn lb ps (t # rest) = process_loop e a nn lb ps1 rest1"
      using Continue by simp
    from process_candidate_sent [of e a nn lb ps t rest] Continue
    consider "sent (pw ps1) = sent (pw ps)"
      | "sent (pw ps1) = sent (pw ps) @ [create_transaction t]"
        "recover_sender e (create_transaction t) = a"
      by auto
    then show ?thesis
    proof cases
      case 1
      with n r show ?thesis unfolding l by (intro exI [of _ new]) auto
    next
      case 2
      with n r show ?thesis unfolding l
        by (intro exI [of _ "create_transaction t # new"]) auto
    qed
  next
    case (Break ps1 rest1)
    with process_candidate_sent [of e a nn lb ps t rest] show ?thesis by auto
  next
    case (Return ps1)
    with process_candidate_sent [of e a nn lb ps t rest] show ?thesis by auto
  next
    case (Raise ps1)
    with process_candidate_sent [of e a nn lb ps t rest] show ?thesis by auto
  qed
qed


lemma check_addresses_sent [simp]: "sent (check_addresses xs w) = sent w"
  by (induction xs arbitrary: w) simp_all

lemma finish_pass_sent [simp]: "sent (finish_pass a ps ts) = sent (pw ps)"
  by (simp add: finish_pass_def Let_def)

lemma pass_sent:
  "\<exists>new. sent (snd (process_transaction_queue_pass e a w)) = sent w @ new
      \<and> (\<forall>x\<in>set new. recover_sender e x = a
            \<and> x \<in> create_transaction ` set (fetch_transactions_out (db w) a))"
proof (cases "fetch_transactions_out (db w) a = []")
  case True
  then show ?thesis by (simp add: process_transaction_queue_pass_def)
next
  case False
  define lb where "lb = last_blocknumber (db w)"
  define nn where "nn = eth_getTransactionCount (eth e) a (or_latest lb)"
  define un where "un = fetch_unconfirmed_txs (db w) a (or_zero lb)"
  define ps0 where "ps0 =
    (if un \<noteq> []
     then \<lparr>pw = w, balance = eth_getBalance (eth e) a (or_latest lb) - sum_list (map cost un),
           next_nonce = nonce (last un) + 1, previous_error = False, addresses_to_check = []\<rparr>
     else \<lparr>pw = w, balance = eth_getBalance (eth e) a (or_latest lb), next_nonce = nn,
           previous_error = False, addresses_to_check = []\<rparr>)"
  have w: "pw ps0 = w" by (simp add: ps0_def)
  have "sent (snd (process_transaction_queue_pass e a w))
          = sent (pw (step_state (process_loop e a nn lb ps0 (fetch_transactions_out (db w) a))))"
    using False
    by (simp add: process_transaction_queue_pass_def Let_def lb_def nn_def un_def ps0_def
        split: step.splits)
  with process_loop_sent [of e a nn lb ps0 "fetch_transactions_out (db w) a"] w
  show ?thesis by simp
qed

text \<open>
  C10. Whatever a pass hands to \<open>eth_sendRawTransaction\<close> is a transaction rebuilt from
  a candidate row whose signature recovers to the address of the queue: a row whose
  signature recovers to another address is never sent. When a candidate gets as far as
  the signature check (no earlier failure, nonce check passed, balance enough, price not
  under the floor) and the recovered sender differs from the queue's address, nothing is
  sent, and that row and every later candidate of the pass end as \<open>error\<close>.
\<close>

theorem unrecovered_sender_never_sent:
  "(\<exists>new. sent (snd (process_transaction_queue_pass e a w)) = sent w @ new
       \<and> (\<forall>x\<in>set new. recover_sender e x = a
             \<and> x \<in> create_transaction ` set (fetch_transactions_out (db w) a)))
   \<and> (\<not> previous_error ps \<and> passes_nonce_check e a network_nonce ps t rest
       \<and> cost t \<le> balance ps \<and> \<not> gas_price_too_low (pw ps) t
       \<and> recover_sender e (create_transaction t) \<noteq> a \<and> as_fetched (db (pw ps)) (t # rest)
      \<longrightarrow> (\<exists>ps1. process_loop e a network_nonce lb ps (t # rest) = Break ps1 []
             \<and> (\<forall>x\<in>set (t # rest). status_of (db (pw ps1)) (transaction_id x) = Some Error)
             \<and> sent (pw ps1) = sent (pw ps)))"
proof (intro conjI impI)
  show "\<exists>new. sent (snd (process_transaction_queue_pass e a w)) = sent w @ new
       \<and> (\<forall>x\<in>set new. recover_sender e x = a
             \<and> x \<in> create_transaction ` set (fetch_transactions_out (db w) a))"
    by (rule pass_sent)
next
  assume h: "\<not> previous_error ps \<and> passes_nonce_check e a network_nonce ps t rest
       \<and> cost t \<le> balance ps \<and> \<not> gas_price_too_low (pw ps) t
       \<and> recover_sender e (create_transaction t) \<noteq> a \<and> as_fetched (db (pw ps)) (t # rest)"
  then have cn: "check_nonce e a network_nonce ps t rest = Inr (ps, rest)"
    using passes_nonce_check_Inr by blast
  have "process_candidate e a network_nonce lb ps t rest
          = error_continue e t (ps\<lparr>previous_error := True\<rparr>) rest"
    using h cn by (simp add: process_candidate_def check_balance_def)
  from fail_and_cascade [OF this] h
  show "\<exists>ps1. process_loop e a network_nonce lb ps (t # rest) = Break ps1 []
             \<and> (\<forall>x\<in>set (t # rest). status_of (db (pw ps1)) (transaction_id x) = Some Error)
             \<and> sent (pw ps1) = sent (pw ps)"
    by blast
qed

theorem unrecovered_sender_never_sent_witness:
  "sent (snd (process_transaction_queue_pass (ex_env 50 ''0xa'') ''0xa'' (ex_world ex_queue None)))
     = map create_transaction ex_queue
   \<and> list_all (\<lambda>x. recover_sender (ex_env 50 ''0xa'') x = ''0xa'') (map create_transaction ex_queue)
   \<and> (\<exists>ps1. process_loop (ex_env 50 ''0xz'') ''0xa'' 0 (Some 5)
              (ex_pass_state (ex_world ex_queue None) 50) ex_queue = Break ps1 []
         \<and> (\<forall>x\<in>set ex_queue. status_of (db (pw ps1)) (transaction_id x) = Some Error)
         \<and> sent (pw ps1) = [])"
proof -
  let ?e = "ex_env 50 ''0xz''"
  let ?t = "ex_tx 1 ''0xh1'' ''0xb'' 0 1 New"
  let ?rest = "[ex_tx 2 ''0xh2'' ''0xb'' 1 1 New]"
  let ?ps = "ex_pass_state (ex_world (ex_queue @ []) None) 50"
  have q: "ex_queue = ?t # ?rest" by (simp add: ex_queue_def)
  have h: "\<not> previous_error ?ps \<and> passes_nonce_check ?e ''0xa'' 0 ?ps ?t ?rest
       \<and> cost ?t \<le> balance ?ps \<and> \<not> gas_price_too_low (pw ?ps) ?t
       \<and> recover_sender ?e (create_transaction ?t) \<noteq> ''0xa'' \<and> as_fetched (db (pw ?ps)) (?t # ?rest)"
    using as_fetched_ex_queue [of "[]" None]
      nonce_match_passes [of ?ps ?t 0 ?e "''0xa''" ?rest]
    by (simp add: q ex_pass_state_def cost_def ex_tx_def gas_price_too_low_def ex_world_def
        ex_env_def)
  have s: "sent (snd (process_transaction_queue_pass (ex_env 50 ''0xa'') ''0xa''
             (ex_world ex_queue None))) = map create_transaction ex_queue"
    by (simp add: pass_defs)
  have r: "list_all (\<lambda>x. recover_sender (ex_env 50 ''0xa'') x = ''0xa'')
             (map create_transaction ex_queue)"
    by (simp add: ex_env_def ex_queue_def)
  from unrecovered_sender_never_sent
    [of ?e "''0xa''" "ex_world ex_queue None" ?ps 0 ?t ?rest "Some 5"] h
  have "\<exists>ps1. process_loop ?e ''0xa'' 0 (Some 5) ?ps (?t # ?rest) = Break ps1 []
         \<and> (\<forall>x\<in>set (?t # ?rest). status_of (db (pw ps1)) (transaction_id x) = Some Error)
         \<and> sent (pw ps1) = sent (pw ?ps)"
    by blast
  with s r show ?thesis
    by (auto simp: q ex_pass_state_def ex_world_def simp del: process_loop.simps)
qed

section \<open>Two transactions with one nonce\<close>

text \<open>
  C1 fails in the code. The comment of line 148 picks the transaction with the highest
  gas price, but line 149 compares \<open>transaction['nonce']\<close> with \<open>old_tx['nonce']\<close>, which
  are equal by the query that found \<open>old_tx\<close>. So the candidate always loses: here the
  \<open>new\<close> row 2 pays 30, the \<open>queued\<close> row 1 pays 20, row 2 is the candidate taken
  first, and the pass sets row 2 to \<open>error\<close> and leaves row 1 as it was.
\<close>

theorem overwrite_higher_gas_price_loses:
  "map (\<lambda>t. (transaction_id t, nonce t, gas_price t, status t)) ex_overwrite
     = [(1, 5, 20, Queued), (2, 5, 30, New)]
   \<and> map transaction_id (fetch_transactions_out (db (ex_world ex_overwrite None)) ''0xa'') = [2, 1]
   \<and> map (\<lambda>t. (transaction_id t, status t))
       (transactions (db (snd (process_transaction_queue_pass (ex_env 1000 ''0xa'') ''0xa''
          (ex_world ex_overwrite None)))))
     = [(1, Queued), (2, Error)]"
  by (simp add: pass_defs ex_overwrite_def)

section \<open>Properties of send_transaction\<close>

lemmas intake_ex_defs =
  ex_intake_env_def ex_intake_state_def ex_lib_def ex_signed_def ex_node_def ex_rows_def

lemma ex_attach: "attach_signature (lib (ex_intake_env n bal)) ''tx'' None = Inr (ex_signed n)"
  by (simp add: attach_signature_def ex_intake_env_def ex_lib_def)

lemma ex_unlocked:
  "\<not> submission_locked (ex_intake_state rs)
       (tx_sender (lib (ex_intake_env n bal)) (ex_signed n)) (etx_nonce (ex_signed n))"
  by (simp add: submission_locked_def ex_intake_state_def)

lemma ex_no_existing:
  "fetch_existing (rows (ex_intake_state [])) (tx_sender (lib (ex_intake_env n bal)) (ex_signed n))
     (etx_nonce (ex_signed n)) = None"
  by (simp add: fetch_existing_def ex_intake_state_def)

lemma ex_balance:
  "tx_cost (ex_signed n)
     \<le> snd (get_balances (intake_eth (ex_intake_env n 100)) (rows (ex_intake_state []))
              (tx_sender (lib (ex_intake_env n 100)) (ex_signed n)) True)"
  by (simp add: tx_cost_def get_balances_def outstanding_cost_def intake_ex_defs)

lemma ex_expected:
  "expected_nonce (ex_intake_env n bal) (ex_intake_state rs)
     (tx_sender (lib (ex_intake_env n bal)) (ex_signed n)) = 3"
  by (simp add: expected_nonce_def intake_ex_defs)

text \<open>
  C3. A submission that is signed, takes the submission lock and passes the duplicate-row
  and balance checks must carry the nonce \<open>expected_nonce\<close>: the chain's transaction
  count, or the larger of it and the cached hint when there is one. With a lower nonce it
  is rejected as \<open>invalid_nonce\<close> with "Provided nonce is too low", with a higher one
  with "Provided nonce is too high", the state untouched; with that nonce it is handed to
  the node.
\<close>

theorem send_transaction_nonce_check:
  assumes "attach_signature (lib e) tx_arg signature = Inr tx"
    and "\<not> submission_locked st (tx_sender (lib e) tx) (etx_nonce tx)"
    and "fetch_existing (rows st) (tx_sender (lib e) tx) (etx_nonce tx) = None"
    and "tx_cost tx \<le> snd (get_balances (intake_eth e) (rows st) (tx_sender (lib e) tx) True)"
  shows "expected_nonce e st (tx_sender (lib e) tx)
           = (case nonce_cache st (tx_sender (lib e) tx) of
                None \<Rightarrow> eth_getTransactionCount (intake_eth e) (tx_sender (lib e) tx) None
              | Some hint \<Rightarrow>
                  max hint (eth_getTransactionCount (intake_eth e) (tx_sender (lib e) tx) None))
       \<and> (etx_nonce tx < expected_nonce e st (tx_sender (lib e) tx) \<longrightarrow>
            send_transaction e tx_arg signature st
              = (Inl (JsonRPCInvalidParamsError ''invalid_nonce'' ''Provided nonce is too low''), st))
       \<and> (etx_nonce tx > expected_nonce e st (tx_sender (lib e) tx) \<longrightarrow>
            send_transaction e tx_arg signature st
              = (Inl (JsonRPCInvalidParamsError ''invalid_nonce'' ''Provided nonce is too high''), st))
       \<and> (etx_nonce tx = expected_nonce e st (tx_sender (lib e) tx) \<longrightarrow>
            raw_sent (snd (send_transaction e tx_arg signature st)) = raw_sent st @ [tx])"
  using assms
  by (auto simp: send_transaction_def admit_def Let_def expected_nonce_def max_def
      split: option.splits sum.splits)

theorem send_transaction_nonce_check_witness:
  "send_transaction (ex_intake_env 2 100) ''tx'' None (ex_intake_state [])
     = (Inl (JsonRPCInvalidParamsError ''invalid_nonce'' ''Provided nonce is too low''),
        ex_intake_state [])
   \<and> send_transaction (ex_intake_env 5 100) ''tx'' None (ex_intake_state [])
     = (Inl (JsonRPCInvalidParamsError ''invalid_nonce'' ''Provided nonce is too high''),
        ex_intake_state [])
   \<and> raw_sent (snd (send_transaction (ex_intake_env 3 100) ''tx'' None (ex_intake_state [])))
     = [ex_signed 3]"
proof -
  note th = send_transaction_nonce_check [OF ex_attach ex_unlocked ex_no_existing ex_balance]
  have n: "etx_nonce (ex_signed 2) = 2" "etx_nonce (ex_signed 5) = 5" "etx_nonce (ex_signed 3) = 3"
    by (simp_all add: ex_signed_def)
  have r: "raw_sent (ex_intake_state []) = []" by (simp add: ex_intake_state_def)
  show ?thesis
    using th [of 2] th [of 5] th [of 3] unfolding ex_expected n r by simp
qed

lemma attach_signature_error:
  "attach_signature l tx_arg signature = Inl err \<Longrightarrow> \<exists>i m. err = JsonRPCInvalidParamsError i m"
  by (auto simp: attach_signature_def split: option.splits if_splits)

text \<open>
  C4. \<open>send_transaction\<close> answers \<open>insufficient_funds\<close> only if the cost
  \<open>value + startgas * gasprice\<close> exceeds the chain balance of the sender less the
  outstanding cost of the sender's own unconfirmed transactions (funds on their way to the
  sender do not count), and then the state is as it was: no row is inserted and nothing is
  handed to the node. Conversely a submission that gets as far as the balance check (it is
  signed, takes the submission lock, and no row holds its sender and nonce) with such a
  cost is answered \<open>insufficient_funds\<close>.
\<close>

theorem send_transaction_insufficient_funds:
  "(fst (send_transaction e tx_arg signature st)
         = Inl (JsonRPCInsufficientFundsError ''insufficient_funds'' ''Insufficient Funds'')
      \<longrightarrow> (\<exists>tx. attach_signature (lib e) tx_arg signature = Inr tx
                \<and> tx_cost tx > eth_getBalance (intake_eth e) (tx_sender (lib e) tx) None
                                  - outstanding_cost (rows st) (tx_sender (lib e) tx))
          \<and> snd (send_transaction e tx_arg signature st) = st)
   \<and> (attach_signature (lib e) tx_arg signature = Inr tx
       \<and> \<not> submission_locked st (tx_sender (lib e) tx) (etx_nonce tx)
       \<and> fetch_existing (rows st) (tx_sender (lib e) tx) (etx_nonce tx) = None
       \<and> tx_cost tx > eth_getBalance (intake_eth e) (tx_sender (lib e) tx) None
                         - outstanding_cost (rows st) (tx_sender (lib e) tx)
      \<longrightarrow> send_transaction e tx_arg signature st
            = (Inl (JsonRPCInsufficientFundsError ''insufficient_funds'' ''Insufficient Funds''), st))"
  by (auto simp: send_transaction_def admit_def Let_def get_balances_def
      split: option.splits sum.splits if_splits dest: attach_signature_error)

theorem send_transaction_insufficient_funds_witness:
  "tx_cost (ex_signed 3) = 11
   \<and> eth_getBalance (intake_eth (ex_intake_env 3 20)) ''0xa'' None = 20
   \<and> outstanding_cost ex_rows ''0xa'' = 10
   \<and> send_transaction (ex_intake_env 3 20) ''tx'' None (ex_intake_state ex_rows)
       = (Inl (JsonRPCInsufficientFundsError ''insufficient_funds'' ''Insufficient Funds''),
          ex_intake_state ex_rows)"
proof -
  have c: "tx_cost (ex_signed 3) = 11" by (simp add: tx_cost_def ex_signed_def)
  have b: "eth_getBalance (intake_eth (ex_intake_env 3 20)) ''0xa'' None = 20"
    by (simp add: intake_ex_defs)
  have o: "outstanding_cost ex_rows ''0xa'' = 10"
    by (simp add: outstanding_cost_def ex_rows_def)
  have s: "tx_sender (lib (ex_intake_env 3 20)) (ex_signed 3) = ''0xa''"
    by (simp add: intake_ex_defs)
  have f: "fetch_existing (rows (ex_intake_state ex_rows)) ''0xa'' (etx_nonce (ex_signed 3)) = None"
    by (simp add: fetch_existing_def intake_ex_defs)
  have r: "rows (ex_intake_state ex_rows) = ex_rows" by (simp add: ex_intake_state_def)
  have h: "attach_signature (lib (ex_intake_env 3 20)) ''tx'' None = Inr (ex_signed 3)
       \<and> \<not> submission_locked (ex_intake_state ex_rows)
            (tx_sender (lib (ex_intake_env 3 20)) (ex_signed 3)) (etx_nonce (ex_signed 3))
       \<and> fetch_existing (rows (ex_intake_state ex_rows))
            (tx_sender (lib (ex_intake_env 3 20)) (ex_signed 3)) (etx_nonce (ex_signed 3)) = None
       \<and> tx_cost (ex_signed 3)
            > eth_getBalance (intake_eth (ex_intake_env 3 20))
                (tx_sender (lib (ex_intake_env 3 20)) (ex_signed 3)) None
              - outstanding_cost (rows (ex_intake_state ex_rows))
                  (tx_sender (lib (ex_intake_env 3 20)) (ex_signed 3))"
    using ex_attach [of 3 20] ex_unlocked [of ex_rows 3 20] f
    unfolding s r c b o by simp
  from send_transaction_insufficient_funds
    [of "ex_intake_env 3 20" "''tx''" None "ex_intake_state ex_rows" "ex_signed 3"] h
  have "send_transaction (ex_intake_env 3 20) ''tx'' None (ex_intake_state ex_rows)
       = (Inl (JsonRPCInsufficientFundsError ''insufficient_funds'' ''Insufficient Funds''),
          ex_intake_state ex_rows)"
    by blast
  with c b o show ?thesis by simp
qed

text \<open>
  C5, as the code has it. The INSERT of lines 221-225 names seven columns and
  \<open>last_status\<close> is not one of them: the row gets the column's default. Where the table
  declares none, the row of an accepted submission has no status.
\<close>

theorem inserted_status_counterexample:
  "fst (send_transaction (ex_intake_env 3 100) ''tx'' None (ex_intake_state [])) = Inr ''0xh''
   \<and> map last_status
       (rows (snd (send_transaction (ex_intake_env 3 100) ''tx'' None (ex_intake_state []))))
     = [None]"
  by (simp add: send_transaction_def admit_def attach_signature_def fetch_existing_def
      submission_locked_def get_balances_def outstanding_cost_def expected_nonce_def tx_cost_def inserted_row_def
      Let_def intake_ex_defs)

text \<open>
  C5, amended. After \<open>eth_sendRawTransaction\<close> has accepted the transaction,
  \<open>send_transaction\<close> has set the cached nonce hint of the sender to the nonce plus one
  and appended one row: the node's hash, sender, recipient, nonce, value, gas cost, and
  \<open>sender_token_id\<close> the identity of the authenticated client, whatever the sender is.
  The status of the row is the default of the column, since the INSERT supplies none.
\<close>

theorem send_transaction_success_effects:
  assumes "attach_signature (lib e) tx_arg signature = Inr tx"
    and "\<not> submission_locked st (tx_sender (lib e) tx) (etx_nonce tx)"
    and "fetch_existing (rows st) (tx_sender (lib e) tx) (etx_nonce tx) = None"
    and "tx_cost tx \<le> snd (get_balances (intake_eth e) (rows st) (tx_sender (lib e) tx) True)"
    and "etx_nonce tx = expected_nonce e st (tx_sender (lib e) tx)"
    and "eth_sendRawTransaction (intake_eth e) tx = Inr h"
  shows "nonce_cache (snd (send_transaction e tx_arg signature st)) (tx_sender (lib e) tx)
           = Some (etx_nonce tx + 1)
       \<and> rows (snd (send_transaction e tx_arg signature st))
           = rows st @
             [\<lparr>transaction_hash = h, row_from_address = tx_sender (lib e) tx,
               row_to_address = etx_to tx, row_nonce = etx_nonce tx, row_value = etx_value tx,
               estimated_gas_cost = etx_startgas tx * etx_gasprice tx,
               sender_token_id = user_token_id e, last_status = default_last_status e\<rparr>]"
  using assms
  by (auto simp: send_transaction_def admit_def Let_def inserted_row_def
      split: option.splits sum.splits)


theorem send_transaction_success_effects_witness:
  "nonce_cache (snd (send_transaction (ex_intake_env 3 100) ''tx'' None (ex_intake_state []))) ''0xa''
     = Some 4
   \<and> rows (snd (send_transaction (ex_intake_env 3 100) ''tx'' None (ex_intake_state [])))
     = [\<lparr>transaction_hash = ''0xh'', row_from_address = ''0xa'', row_to_address = ''0xb'',
         row_nonce = 3, row_value = 10, estimated_gas_cost = 1,
         sender_token_id = Some ''0xclient'', last_status = None\<rparr>]"
proof -
  have n: "etx_nonce (ex_signed 3)
             = expected_nonce (ex_intake_env 3 100) (ex_intake_state [])
                 (tx_sender (lib (ex_intake_env 3 100)) (ex_signed 3))"
    unfolding ex_expected by (simp add: ex_signed_def)
  have h: "eth_sendRawTransaction (intake_eth (ex_intake_env 3 100)) (ex_signed 3) = Inr ''0xh''"
    by (simp add: intake_ex_defs)
  show ?thesis
    using send_transaction_success_effects
      [OF ex_attach ex_unlocked ex_no_existing ex_balance n h]
    by (simp add: intake_ex_defs)
qed

section \<open>One processor per address\<close>

lemma count_update:
  "i < length xs \<Longrightarrow>
     length (filter P (xs[i := y])) + (if P (xs ! i) then 1 else 0)
       = length (filter P xs) + (if P y then 1 else 0)"
proof (induction xs arbitrary: i)
  case Nil
  then show ?case by simp
next
  case (Cons x xs)
  then show ?case by (cases i) auto
qed

lemma running_set_worker:
  "i < length (workers s) \<Longrightarrow>
     running (set_worker i w s) + (if active (workers s ! i) then 1 else 0)
       = running s + (if active w then 1 else 0)"
  using count_update [of i "workers s" active w] by (simp add: running_def set_worker_def)

lemma set_worker_simps [simp]:
  "processing (set_worker i w s) = processing s"
  "should_re_run (set_worker i w s) = should_re_run s"
  "workers (set_worker i w s) = (workers s)[i := w]"
  by (simp_all add: set_worker_def)

lemma running_fields [simp]:
  "running (s\<lparr>processing := b\<rparr>) = running s"
  "running (s\<lparr>should_re_run := b\<rparr>) = running s"
  by (simp_all add: running_def)

lemma active_positive:
  "i < length (workers s) \<Longrightarrow> active (workers s ! i) \<Longrightarrow> 0 < running s"
  unfolding running_def by (metis filter_empty_conv length_greater_0_conv nth_mem)

lemma step_exclusive:
  assumes "exclusive s"
  shows "exclusive (process_transaction_queue_step raises i s)"
proof (cases "i < length (workers s)")
  case False
  then show ?thesis using assms by (simp add: process_transaction_queue_step_def)
next
  case True
  let ?w = "workers s ! i"
  note r = running_set_worker [OF True]
  show ?thesis
  proof (cases "pc ?w")
    case Start
    then have na: "\<not> active ?w" by (simp add: active_def)
    show ?thesis
    proof (cases "processing s")
      case p: True
      from r [of "?w\<lparr>pc := Contended\<rparr>"] na assms Start True p show ?thesis
        by (simp add: process_transaction_queue_step_def exclusive_def active_def Let_def)
    next
      case p: False
      with assms have z: "running s = 0" by (auto simp: exclusive_def)
      let ?s = "s\<lparr>processing := True\<rparr>"
      have "i < length (workers ?s)" using True by simp
      from running_set_worker [OF this, of "?w\<lparr>pc := Passing, passes := passes ?w + 1\<rparr>"] na z
      show ?thesis using Start True p
        by (simp add: process_transaction_queue_step_def exclusive_def active_def Let_def)
    qed
  next
    case Contended
    then have na: "\<not> active ?w" by (simp add: active_def)
    let ?s = "s\<lparr>should_re_run := True\<rparr>"
    have "i < length (workers ?s)" using True by simp
    from running_set_worker [OF this, of "?w\<lparr>pc := Finished\<rparr>"] na assms
    show ?thesis using Contended True
      by (simp add: process_transaction_queue_step_def exclusive_def active_def Let_def)
  next
    case Passing
    then have a: "active ?w" by (simp add: active_def)
    with assms active_positive [OF True] have one: "running s = 1" "processing s"
      by (auto simp: exclusive_def)
    let ?s = "s\<lparr>should_re_run := False\<rparr>"
    have l: "i < length (workers ?s)" using True by simp
    show ?thesis
      using r [of "?w\<lparr>pc := Releasing\<rparr>"]
        running_set_worker [OF l, of "?w\<lparr>pc := Renewing\<rparr>"]
        running_set_worker [OF l, of "?w\<lparr>pc := Releasing\<rparr>"]
        a one Passing True
      by (simp add: process_transaction_queue_step_def exclusive_def active_def Let_def)
  next
    case Renewing
    then have a: "active ?w" by (simp add: active_def)
    with assms active_positive [OF True] have one: "running s = 1"
      by (auto simp: exclusive_def)
    let ?s = "s\<lparr>processing := True\<rparr>"
    have l: "i < length (workers ?s)" using True by simp
    show ?thesis
      using running_set_worker [OF l, of "?w\<lparr>pc := Passing, passes := passes ?w + 1\<rparr>"]
        a one Renewing True
      by (simp add: process_transaction_queue_step_def exclusive_def active_def Let_def)
  next
    case Releasing
    then have a: "active ?w" by (simp add: active_def)
    with assms active_positive [OF True] have one: "running s = 1"
      by (auto simp: exclusive_def)
    let ?s = "s\<lparr>processing := False\<rparr>"
    have l: "i < length (workers ?s)" using True by simp
    show ?thesis
      using running_set_worker [OF l, of "?w\<lparr>pc := Finished\<rparr>"]
        a one Releasing True
      by (simp add: process_transaction_queue_step_def exclusive_def active_def Let_def)
  next
    case Finished
    then show ?thesis using assms True by (simp add: process_transaction_queue_step_def)
  qed
qed

lemma run_exclusive: "exclusive s \<Longrightarrow> exclusive (run_schedule evs s)"
  by (induction evs arbitrary: s) (auto simp: step_exclusive)


lemma step_length [simp]:
  "length (workers (process_transaction_queue_step raises i s)) = length (workers s)"
  by (simp add: process_transaction_queue_step_def Let_def split: pc.splits)

lemma step_other:
  "j \<noteq> i \<Longrightarrow> workers (process_transaction_queue_step raises j s) ! i = workers s ! i"
  by (simp add: process_transaction_queue_step_def Let_def split: pc.splits)

lemma run_others:
  "\<forall>ev\<in>set evs. fst ev \<noteq> i \<Longrightarrow>
     workers (run_schedule evs s) ! i = workers s ! i
     \<and> length (workers (run_schedule evs s)) = length (workers s)"
proof (induction evs arbitrary: s)
  case Nil
  then show ?case by simp
next
  case (Cons ev evs)
  obtain j r where ev: "ev = (j, r)" by (cases ev)
  with Cons.prems have "j \<noteq> i" and "\<forall>ev\<in>set evs. fst ev \<noteq> i" by auto
  with Cons.IH [of "process_transaction_queue_step r j s"] ev show ?case
    by (simp add: step_other)
qed

lemma contended_returns:
  assumes "i < length (workers s)" and "pc (workers s ! i) = Start" and "processing s"
    and "\<forall>ev\<in>set others. fst ev \<noteq> i"
  shows "should_re_run
            (process_transaction_queue_step r2 i
               (run_schedule others (process_transaction_queue_step r1 i s)))
          \<and> workers (process_transaction_queue_step r2 i
               (run_schedule others (process_transaction_queue_step r1 i s))) ! i
              = (workers s ! i)\<lparr>pc := Finished\<rparr>"
proof -
  let ?s1 = "process_transaction_queue_step r1 i s"
  let ?s2 = "run_schedule others ?s1"
  have w1: "workers ?s1 ! i = (workers s ! i)\<lparr>pc := Contended\<rparr>"
    using assms by (simp add: process_transaction_queue_step_def Let_def)
  have w2: "workers ?s2 ! i = (workers s ! i)\<lparr>pc := Contended\<rparr>"
    and l2: "i < length (workers ?s2)"
    using run_others [of others i ?s1] assms w1 by simp_all
  show ?thesis
    using w2 l2 by (simp add: process_transaction_queue_step_def Let_def)
qed

lemma pass_end_reruns:
  assumes "i < length (workers s)" and "pc (workers s ! i) = Passing"
    and "\<forall>ev\<in>set others. fst ev \<noteq> i"
  shows "\<not> should_re_run (process_transaction_queue_step False i s)
          \<and> workers (process_transaction_queue_step r2 i
               (run_schedule others (process_transaction_queue_step False i s))) ! i
              = (if should_re_run s
                 then (workers s ! i)\<lparr>pc := Passing, passes := passes (workers s ! i) + 1\<rparr>
                 else (workers s ! i)\<lparr>pc := Finished\<rparr>)"
proof -
  let ?s1 = "process_transaction_queue_step False i s"
  let ?s2 = "run_schedule others ?s1"
  have w1: "workers ?s1 ! i
              = (workers s ! i)\<lparr>pc := (if should_re_run s then Renewing else Releasing)\<rparr>"
    and f1: "\<not> should_re_run ?s1"
    using assms by (simp_all add: process_transaction_queue_step_def Let_def)
  have w2: "workers ?s2 ! i
              = (workers s ! i)\<lparr>pc := (if should_re_run s then Renewing else Releasing)\<rparr>"
    and l2: "i < length (workers ?s2)"
    using run_others [of others i ?s1] assms w1 by simp_all
  show ?thesis
    using f1 w2 l2 by (simp add: process_transaction_queue_step_def Let_def)
qed

text \<open>
  C8. In every interleaving of the invocations for one address that starts with no
  invocation holding the key (or one, with the key set), at most one invocation holds
  it at any time. An invocation that starts while the key is set sets the re-run flag
  and returns without having begun a pass, whatever the others do in between. The
  invocation in a pass, when the pass completes, reads and clears the flag in one step,
  and its next step begins another pass exactly when the flag was set; otherwise it
  deletes the key and returns.
\<close>

theorem one_processor_per_address:
  "(exclusive s0 \<longrightarrow> running (run_schedule evs s0) \<le> 1)
   \<and> (i < length (workers s) \<and> pc (workers s ! i) = Start \<and> processing s
       \<and> (\<forall>ev\<in>set others. fst ev \<noteq> i)
      \<longrightarrow> should_re_run
            (process_transaction_queue_step r2 i
               (run_schedule others (process_transaction_queue_step r1 i s)))
          \<and> workers (process_transaction_queue_step r2 i
               (run_schedule others (process_transaction_queue_step r1 i s))) ! i
              = (workers s ! i)\<lparr>pc := Finished\<rparr>)
   \<and> (i < length (workers s) \<and> pc (workers s ! i) = Passing
       \<and> (\<forall>ev\<in>set others. fst ev \<noteq> i)
      \<longrightarrow> \<not> should_re_run (process_transaction_queue_step False i s)
          \<and> workers (process_transaction_queue_step r2 i
               (run_schedule others (process_transaction_queue_step False i s))) ! i
              = (if should_re_run s
                 then (workers s ! i)\<lparr>pc := Passing, passes := passes (workers s ! i) + 1\<rparr>
                 else (workers s ! i)\<lparr>pc := Finished\<rparr>))"
proof -
  have a: "exclusive s0 \<longrightarrow> running (run_schedule evs s0) \<le> 1"
    using run_exclusive [of s0 evs] by (auto simp: exclusive_def)
  have b: "i < length (workers s) \<and> pc (workers s ! i) = Start \<and> processing s
       \<and> (\<forall>ev\<in>set others. fst ev \<noteq> i)
      \<longrightarrow> should_re_run
            (process_transaction_queue_step r2 i
               (run_schedule others (process_transaction_queue_step r1 i s)))
          \<and> workers (process_transaction_queue_step r2 i
               (run_schedule others (process_transaction_queue_step r1 i s))) ! i
              = (workers s ! i)\<lparr>pc := Finished\<rparr>"
    using contended_returns [of i s others r2 r1] by blast
  have c: "i < length (workers s) \<and> pc (workers s ! i) = Passing
       \<and> (\<forall>ev\<in>set others. fst ev \<noteq> i)
      \<longrightarrow> \<not> should_re_run (process_transaction_queue_step False i s)
          \<and> workers (process_transaction_queue_step r2 i
               (run_schedule others (process_transaction_queue_step False i s))) ! i
              = (if should_re_run s
                 then (workers s ! i)\<lparr>pc := Passing, passes := passes (workers s ! i) + 1\<rparr>
                 else (workers s ! i)\<lparr>pc := Finished\<rparr>)"
    using pass_end_reruns [of i s others r2] by blast
  show ?thesis by (rule conjI [OF a conjI [OF b c]])
qed

lemmas lock_defs =
  process_transaction_queue_step_def set_worker_def running_def exclusive_def active_def
  ex_lock_def Let_def

theorem one_processor_per_address_witness:
  "exclusive ex_lock
   \<and> running (run_schedule [(0, False), (1, False), (1, False), (0, False)] ex_lock) \<le> 1
   \<and> run_schedule [(0, False), (1, False), (1, False)] ex_lock
       = \<lparr>processing = True, should_re_run = True,
          workers = [\<lparr>pc = Passing, passes = 1\<rparr>, \<lparr>pc = Finished, passes = 0\<rparr>]\<rparr>
   \<and> run_schedule [(0, False), (1, False), (1, False), (0, False), (0, False)] ex_lock
       = \<lparr>processing = True, should_re_run = False,
          workers = [\<lparr>pc = Passing, passes = 2\<rparr>, \<lparr>pc = Finished, passes = 0\<rparr>]\<rparr>
   \<and> run_schedule [(0, False), (1, False), (1, False), (0, False), (0, False), (0, False),
                   (0, False)] ex_lock
       = \<lparr>processing = False, should_re_run = False,
          workers = [\<lparr>pc = Finished, passes = 2\<rparr>, \<lparr>pc = Finished, passes = 0\<rparr>]\<rparr>"
proof -
  let ?a = "run_schedule [(0, False)] ex_lock"
  let ?b = "run_schedule [(0, False), (1, False), (1, False)] ex_lock"
  have e: "exclusive ex_lock" by (simp add: lock_defs)
  have ha: "1 < length (workers ?a) \<and> pc (workers ?a ! 1) = Start \<and> processing ?a
      \<and> (\<forall>ev\<in>set []. fst ev \<noteq> (1::nat))"
    by (simp add: lock_defs)
  have hb: "0 < length (workers ?b) \<and> pc (workers ?b ! 0) = Passing
      \<and> (\<forall>ev\<in>set []. fst ev \<noteq> (0::nat))"
    by (simp add: lock_defs)
  note t1 = one_processor_per_address
    [of ex_lock "[(0, False), (1, False), (1, False), (0, False)]" 1 ?a "[]" False False]
  note t2 = one_processor_per_address
    [of ex_lock "[(0, False), (1, False), (1, False), (0, False)]" 0 ?b "[]" False False]
  from t1 e have r: "running (run_schedule [(0, False), (1, False), (1, False), (0, False)] ex_lock) \<le> 1"
    by blast
  from t1 ha have c: "should_re_run
      (process_transaction_queue_step False 1 (run_schedule [] (process_transaction_queue_step False 1 ?a)))"
    by blast
  from t2 hb have p: "\<not> should_re_run (process_transaction_queue_step False 0 ?b)"
    by blast
  from e r c p show ?thesis by (simp add: lock_defs)
qed

end
